theory Spec2Isabelle
  imports Complex_Main
begin

chapter \<open>The model\<close>

section \<open>Python values and exceptions\<close>

text \<open>
  The exceptions the modelled code can raise. A function that can raise returns
  \<open>py_error + 'a\<close> with \<open>Inl\<close> for the exception; a function that mutates shared state
  before it raises returns the state together with an optional exception.
\<close>

datatype py_error =
    KeyError
  | TypeError
  | ValueError
  | AttributeError
  | ImportError
  | AssertionError
  | IntegrityError
  | DoesNotExist
  | IndexError

section \<open>recommendation/language/models.py\<close>

subsection \<open>Locale and Locale.save\<close>

text \<open>
  \<^verbatim>\<open>str.lower()\<close> on the byte strings of Python 2: the letters \<open>A\<close> to \<open>Z\<close> go to
  \<open>a\<close> to \<open>z\<close>, every other byte stays.
\<close>

definition is_upper :: "char \<Rightarrow> bool" where
  "is_upper c = (65 \<le> (of_char c :: nat) \<and> (of_char c :: nat) \<le> 90)"

definition lower_char :: "char \<Rightarrow> char" where
  "lower_char c = (if is_upper c then char_of ((of_char c :: nat) + 32) else c)"

definition lower :: "string \<Rightarrow> string" where
  "lower s = map lower_char s"

text \<open>A row of the Locale table; \<open>locale_pk\<close> is \<open>None\<close> until the row is inserted.\<close>

record locale_row =
  locale_pk :: "nat option"
  language_code :: string
  country_code :: string
  locale_name :: string


text \<open>
  The database side of \<^verbatim>\<open>Model.save\<close>, which \<^verbatim>\<open>Locale.save\<close> reaches through
  \<^verbatim>\<open>super\<close>: the row replaces the stored row of the same primary key, or is inserted
  (under a fresh key when it has none). The table's \<^verbatim>\<open>unique_together\<close> on the two codes
  makes the database refuse a second row with the codes of another one.
\<close>

definition fresh_pk :: "nat option list \<Rightarrow> nat" where
  "fresh_pk pks = Suc (fold max (map (\<lambda>p. case p of None \<Rightarrow> 0 | Some k \<Rightarrow> k) pks) 0)"

definition violates_unique :: "locale_row list \<Rightarrow> locale_row \<Rightarrow> bool" where
  "violates_unique tbl l =
     (\<exists>r \<in> set tbl. locale_pk r \<noteq> locale_pk l
        \<and> language_code r = language_code l \<and> country_code r = country_code l)"

definition model_save :: "locale_row list \<Rightarrow> locale_row \<Rightarrow> py_error + (locale_row \<times> locale_row list)" where
  "model_save tbl l =
     (if violates_unique tbl l then Inl IntegrityError
      else if locale_pk l \<noteq> None \<and> locale_pk l \<in> set (map locale_pk tbl)
      then Inr (l, map (\<lambda>r. if locale_pk r = locale_pk l then l else r) tbl)
      else (let l' = (if locale_pk l = None
                      then l\<lparr>locale_pk := Some (fresh_pk (map locale_pk tbl))\<rparr> else l)
            in Inr (l', tbl @ [l'])))"

text \<open>
  \<^verbatim>\<open>Locale.save\<close> lowers both codes on the instance, then saves it. The result is the
  instance as it is after the call and the table.
\<close>

definition Locale_save :: "locale_row list \<Rightarrow> locale_row \<Rightarrow> py_error + (locale_row \<times> locale_row list)" where
  "Locale_save tbl l =
     model_save tbl (l\<lparr>language_code := lower (language_code l),
                       country_code := lower (country_code l)\<rparr>)"

text \<open>A string is in lower case when it holds no upper-case letter.\<close>

definition lower_case :: "string \<Rightarrow> bool" where
  "lower_case s = (\<forall>c \<in> set s. \<not> is_upper c)"

definition locale_lower :: "locale_row \<Rightarrow> bool" where
  "locale_lower l = (lower_case (language_code l) \<and> lower_case (country_code l))"

subsection \<open>The locale caches and the m2m signal handler for items\<close>

text \<open>
  The two caches the handler writes: \<^verbatim>\<open>Locale.item_locales\<close> maps an item to the set of
  the primary keys of its locales, \<^verbatim>\<open>Locale.items_by_locale\<close> maps a locale's primary
  key to the set of its items. A cache manager is used as a dictionary (\<^verbatim>\<open>get\<close> with a
  default, item assignment).
\<close>

record locale_caches =
  item_locales :: "nat \<rightharpoonup> nat set"
  items_by_locale :: "nat \<rightharpoonup> nat set"

text \<open>\<^verbatim>\<open>d.get(k, default)\<close>\<close>

definition dict_get :: "('k \<rightharpoonup> 'v) \<Rightarrow> 'k \<Rightarrow> 'v \<Rightarrow> 'v" where
  "dict_get d k dflt = (case d k of None \<Rightarrow> dflt | Some v \<Rightarrow> v)"

text \<open>
  The class attributes of \<^verbatim>\<open>Locale\<close> that hold caches, as the class body declares them.
  Reading any other attribute of the class raises \<^verbatim>\<open>AttributeError\<close>.
\<close>

definition Locale_cache_attributes :: "string list" where
  "Locale_cache_attributes =
     [''all_locales'', ''item_locales'', ''user_locales'', ''items_by_locale'', ''users_by_locale'']"

definition Locale_getattr :: "string \<Rightarrow> py_error + string" where
  "Locale_getattr a = (if a \<in> set Locale_cache_attributes then Inr a else Inl AttributeError)"

text \<open>
  One round of the loop of the \<^verbatim>\<open>"post_save"\<close> branch, for item \<open>i\<close> and the locale
  \<open>pk\<close>. In the first statement the \<^verbatim>\<open>union\<close> is applied to the default argument of
  \<^verbatim>\<open>get\<close>, in the second to the result of \<^verbatim>\<open>get\<close>; the model keeps both as written.
\<close>

definition add_step :: "nat \<Rightarrow> nat \<Rightarrow> locale_caches \<Rightarrow> locale_caches" where
  "add_step pk i c =
     (let c1 = c\<lparr>item_locales := (item_locales c)(i \<mapsto> dict_get (item_locales c) i ({} \<union> {pk}))\<rparr>
      in c1\<lparr>items_by_locale :=
               (items_by_locale c1)(pk \<mapsto> dict_get (items_by_locale c1) pk {} \<union> {i})\<rparr>)"

text \<open>
  One round of the loop of the \<^verbatim>\<open>"post_remove"\<close> branch. The first three statements
  update \<^verbatim>\<open>Locale.item_locales\<close>; the fourth reads \<^verbatim>\<open>Locale.items_by_locales\<close>.
\<close>

definition remove_step :: "nat \<Rightarrow> nat \<Rightarrow> locale_caches \<Rightarrow> locale_caches \<times> py_error option" where
  "remove_step pk i c =
     (let l = dict_get (item_locales c) i {};
          c1 = c\<lparr>item_locales := (item_locales c)(i \<mapsto> l - {pk})\<rparr>
      in case Locale_getattr ''items_by_locales'' of
           Inl e \<Rightarrow> (c1, Some e)
         | Inr _ \<Rightarrow>
             (let l2 = dict_get (items_by_locale c1) pk {}
              in (c1\<lparr>items_by_locale := (items_by_locale c1)(pk \<mapsto> l2 - {i})\<rparr>, None)))"

fun remove_loop :: "nat \<Rightarrow> nat list \<Rightarrow> locale_caches \<Rightarrow> locale_caches \<times> py_error option" where
  "remove_loop pk [] c = (c, None)"
| "remove_loop pk (i # is) c =
     (case remove_step pk i c of
        (c', Some e) \<Rightarrow> (c', Some e)
      | (c', None) \<Rightarrow> remove_loop pk is c')"

text \<open>
  \<^verbatim>\<open>add_item_locale_to_cache\<close>: \<open>pk\<close> is \<^verbatim>\<open>instance.pk\<close>, \<open>pk_set\<close> the items of the
  event in the order the loop visits them. The result is the caches after the call and
  the exception that ended it, if any.
\<close>

definition add_item_locale_to_cache ::
  "nat \<Rightarrow> string \<Rightarrow> nat list \<Rightarrow> locale_caches \<Rightarrow> locale_caches \<times> py_error option" where
  "add_item_locale_to_cache pk action pk_set c =
     (let c1 = (if action = ''post_save'' then fold (add_step pk) pk_set c else c)
      in if action = ''post_remove'' then remove_loop pk pk_set c1 else (c1, None))"

text \<open>The consistency of the two caches: each records what the other records.\<close>

definition caches_consistent :: "locale_caches \<Rightarrow> bool" where
  "caches_consistent c =
     (\<forall>i pk. (pk \<in> dict_get (item_locales c) i {}) = (i \<in> dict_get (items_by_locale c) pk {}))"

definition empty_caches :: locale_caches where
  "empty_caches = \<lparr>item_locales = Map.empty, items_by_locale = Map.empty\<rparr>"

section \<open>frappe/models/module.py\<close>

subsection \<open>Strings\<close>

text \<open>\<^verbatim>\<open>s.split(sep)\<close> for a one-character separator: always at least one part.\<close>

fun split_on :: "char \<Rightarrow> string \<Rightarrow> string list" where
  "split_on sep [] = [[]]"
| "split_on sep (c # cs) =
     (if c = sep then [] # split_on sep cs
      else (case split_on sep cs of [] \<Rightarrow> [[c]] | w # ws \<Rightarrow> (c # w) # ws))"

text \<open>\<^verbatim>\<open>sep.join(parts)\<close>\<close>

fun join :: "string \<Rightarrow> string list \<Rightarrow> string" where
  "join sep [] = []"
| "join sep [p] = p"
| "join sep (p # q # ps) = p @ sep @ join sep (q # ps)"

subsection \<open>Modules, import and attribute lookup\<close>

text \<open>
  What a dotted name resolves to: a class or a module, each named by its full dotted
  name.
\<close>

datatype pyobj = PyClass string | PyModule string

text \<open>
  The interpreter the code runs in: the dotted names of the modules that can be imported,
  and for each module the attributes its body defines.
\<close>

record py_env =
  importable :: "string list"
  attrs :: "string \<Rightarrow> string \<rightharpoonup> pyobj"

text \<open>
  \<^verbatim>\<open>__import__(name)\<close> with no further argument. It imports the module \<open>name\<close> and
  returns the top-level package, the module named by the part of \<open>name\<close> before the first
  dot. Importing \<open>a.b\<close> binds \<open>b\<close> in package \<open>a\<close> to the submodule. The result is the
  namespace of the returned module object. An empty name raises \<^verbatim>\<open>ValueError\<close>.
\<close>

definition py_import :: "py_env \<Rightarrow> string \<Rightarrow> py_error + (string \<rightharpoonup> pyobj)" where
  "py_import env name =
     (if name = [] then Inl ValueError
      else if name \<notin> set (importable env) then Inl ImportError
      else (case split_on CHR ''.'' name of
              [] \<Rightarrow> Inl ImportError
            | [pkg] \<Rightarrow> Inr (attrs env pkg)
            | pkg # sub # _ \<Rightarrow>
                Inr ((attrs env pkg)(sub \<mapsto> PyModule (pkg @ ''.'' @ sub)))))"

text \<open>\<^verbatim>\<open>getattr(module, name)\<close>\<close>

definition py_getattr :: "(string \<rightharpoonup> pyobj) \<Rightarrow> string \<Rightarrow> py_error + pyobj" where
  "py_getattr ns a = (case ns a of None \<Rightarrow> Inl AttributeError | Some v \<Rightarrow> Inr v)"

subsection \<open>Predictor\<close>

text \<open>
  A row of the Predictor table. The fields \<^verbatim>\<open>kwargs\<close> and \<^verbatim>\<open>data\<close> play no part in the
  functions modelled here.
\<close>

record predictor =
  predictor_identifier :: string
  python_class :: string

text \<open>\<^verbatim>\<open>Predictor.get_predictor\<close>: \<^verbatim>\<open>Predictor.objects.get(pk=predictor_id)\<close>.\<close>

definition get_predictor_row :: "(nat \<rightharpoonup> predictor) \<Rightarrow> nat \<Rightarrow> py_error + predictor" where
  "get_predictor_row tbl predictor_id =
     (case tbl predictor_id of None \<Rightarrow> Inl DoesNotExist | Some p \<Rightarrow> Inr p)"

text \<open>
  \<^verbatim>\<open>Predictor.get_class\<close>. The \<^verbatim>\<open>Cached\<close> decorator stores results and changes none.
\<close>

definition get_class :: "py_env \<Rightarrow> (nat \<rightharpoonup> predictor) \<Rightarrow> nat \<Rightarrow> py_error + pyobj" where
  "get_class env tbl predictor_id =
     (case get_predictor_row tbl predictor_id of
        Inl e \<Rightarrow> Inl e
      | Inr p \<Rightarrow>
          (let class_parts = split_on CHR ''.'' (python_class p);
               module = join ''.'' (butlast class_parts);
               cls = last class_parts
           in case py_import env module of
                Inl e \<Rightarrow> Inl e
              | Inr m \<Rightarrow> py_getattr m cls))"

text \<open>
  What a dotted path \<open>m1.m2.....mk.C\<close> denotes: the attribute \<open>C\<close> of the module
  \<open>m1.m2.....mk\<close>. This definition follows the claim, not the code.
\<close>

definition denoted_class :: "py_env \<Rightarrow> string list \<Rightarrow> string \<Rightarrow> pyobj option" where
  "denoted_class env ms c = attrs env (join ''.'' ms) c"

text \<open>An interpreter with a package \<open>pkg\<close>, its submodule \<open>pkg.algo\<close> and a class in it.\<close>

definition example_env :: py_env where
  "example_env =
     \<lparr>importable = [''pkg'', ''pkg.algo''],
      attrs = (\<lambda>m. if m = ''pkg.algo'' then [''Popularity'' \<mapsto> PyClass ''pkg.algo.Popularity'']
                    else Map.empty)\<rparr>"

definition example_predictors :: "nat \<rightharpoonup> predictor" where
  "example_predictors = [1 \<mapsto> \<lparr>predictor_identifier = ''popularity'', python_class = ''pkg.algo.Popularity''\<rparr>]"

subsection \<open>numpy values\<close>

text \<open>
  A numpy value: a number or an array of values. Weights are floats in the source; the
  model computes with real numbers and says nothing about rounding.
\<close>

datatype ndarray = Num real | Arr "ndarray list"

text \<open>\<^verbatim>\<open>a * w\<close> for a float \<open>w\<close>: every element is multiplied.\<close>

fun nd_scale :: "real \<Rightarrow> ndarray \<Rightarrow> ndarray" where
  "nd_scale w (Num x) = Num (x * w)"
| "nd_scale w (Arr xs) = Arr (map (nd_scale w) xs)"

text \<open>The sum of all the elements of a value.\<close>

fun nd_total :: "ndarray \<Rightarrow> real" where
  "nd_total (Num x) = x"
| "nd_total (Arr xs) = sum_list (map nd_total xs)"

text \<open>The shape of a value, \<open>None\<close> when its parts differ in shape.\<close>

fun nd_shape :: "ndarray \<Rightarrow> nat list option" where
  "nd_shape (Num x) = Some []"
| "nd_shape (Arr []) = Some [0]"
| "nd_shape (Arr (y # ys)) =
     (case nd_shape y of
        None \<Rightarrow> None
      | Some sh \<Rightarrow> if (\<forall>z \<in> set ys. nd_shape z = Some sh) then Some (Suc (length ys) # sh) else None)"

text \<open>
  \<^verbatim>\<open>np.sum(xs)\<close> for a list \<open>xs\<close>, with no \<^verbatim>\<open>axis\<close>: the list becomes one array and all its
  elements are added up, over every axis; the result is a number. A list whose members
  differ in shape is refused here (numpy releases differ on it, and no statement below
  uses such a list).
\<close>

definition np_sum :: "ndarray list \<Rightarrow> py_error + ndarray" where
  "np_sum xs = (if nd_shape (Arr xs) = None then Inl ValueError else Inr (Num (nd_total (Arr xs))))"

subsection \<open>Module.aggregate\<close>

text \<open>A row of \<^verbatim>\<open>PredictorWithAggregator\<close>; the weight column is nullable.\<close>

record predictor_with_aggregator =
  predictor_id :: nat
  module_id :: nat
  weight :: "real option"

text \<open>
  \<^verbatim>\<open>Module.get_aggregator\<close>: the dictionary from predictor id to weight, built from the
  rows of the module in table order.
\<close>

definition get_aggregator :: "predictor_with_aggregator list \<Rightarrow> nat \<Rightarrow> (nat \<rightharpoonup> real option)" where
  "get_aggregator tbl m =
     fold (\<lambda>agg d. d(predictor_id agg \<mapsto> weight agg)) (filter (\<lambda>agg. module_id agg = m) tbl) Map.empty"

text \<open>
  A dictionary whose order of keys matters to the trace of the code is a list of pairs
  with distinct keys; assignment replaces the value of a present key and appends an absent
  one.
\<close>

fun dict_set :: "('k \<times> 'v) list \<Rightarrow> 'k \<Rightarrow> 'v \<Rightarrow> ('k \<times> 'v) list" where
  "dict_set [] k v = [(k, v)]"
| "dict_set ((k', v') # d) k v = (if k' = k then (k, v) # d else (k', v') # dict_set d k v)"

definition dict_keys :: "('k \<times> 'v) list \<Rightarrow> 'k list" where
  "dict_keys d = map fst d"

definition dict_values :: "('k \<times> 'v) list \<Rightarrow> 'v list" where
  "dict_values d = map snd d"

text \<open>\<^verbatim>\<open>d[k]\<close>\<close>

definition dict_item :: "('k \<times> 'v) list \<Rightarrow> 'k \<Rightarrow> py_error + 'v" where
  "dict_item d k = (case map_of d k of None \<Rightarrow> Inl KeyError | Some v \<Rightarrow> Inr v)"

text \<open>\<^verbatim>\<open>map(f, xs)\<close> of Python 2, for an \<open>f\<close> that can raise: the first exception ends it.\<close>

fun map_raise :: "('a \<Rightarrow> py_error + 'b) \<Rightarrow> 'a list \<Rightarrow> py_error + 'b list" where
  "map_raise f [] = Inr []"
| "map_raise f (x # xs) =
     (case f x of
        Inl e \<Rightarrow> Inl e
      | Inr y \<Rightarrow> (case map_raise f xs of Inl e \<Rightarrow> Inl e | Inr ys \<Rightarrow> Inr (y # ys)))"

text \<open>
  The function mapped by \<^verbatim>\<open>aggregate\<close>: \<^verbatim>\<open>predictions[pid]*weights[pid]\<close>. A predictor
  with no weight raises \<^verbatim>\<open>KeyError\<close>, a null weight \<^verbatim>\<open>TypeError\<close>.
\<close>

definition weighted ::
  "(nat \<times> ndarray) list \<Rightarrow> (nat \<rightharpoonup> real option) \<Rightarrow> nat \<Rightarrow> py_error + ndarray" where
  "weighted predictions weights pid =
     (case dict_item predictions pid of
        Inl e \<Rightarrow> Inl e
      | Inr p \<Rightarrow>
          (case weights pid of
             None \<Rightarrow> Inl KeyError
           | Some None \<Rightarrow> Inl TypeError
           | Some (Some w) \<Rightarrow> Inr (nd_scale w p)))"

text \<open>\<^verbatim>\<open>Module.aggregate\<close>, for the module with primary key \<open>pk\<close>.\<close>

definition aggregate ::
  "predictor_with_aggregator list \<Rightarrow> nat \<Rightarrow> (nat \<times> ndarray) list \<Rightarrow> py_error + ndarray" where
  "aggregate tbl pk predictions =
     (let weights = get_aggregator tbl pk
      in case map_raise (weighted predictions weights) (dict_keys predictions) of
           Inl e \<Rightarrow> Inl e
         | Inr ws \<Rightarrow> np_sum ws)"

text \<open>
  The weighted sum of the predictions as the claim words it: the predictions, each
  multiplied by its weight, added to one another (element by element for arrays). This
  definition follows the claim, not the code.
\<close>

fun nd_shift :: "real \<Rightarrow> ndarray \<Rightarrow> ndarray" where
  "nd_shift a (Num x) = Num (x + a)"
| "nd_shift a (Arr xs) = Arr (map (nd_shift a) xs)"

fun nd_add :: "ndarray \<Rightarrow> ndarray \<Rightarrow> ndarray"
  and nd_add_list :: "ndarray list \<Rightarrow> ndarray list \<Rightarrow> ndarray list" where
  "nd_add (Num x) (Num y) = Num (x + y)"
| "nd_add (Arr xs) (Arr ys) = Arr (nd_add_list xs ys)"
| "nd_add (Num x) (Arr ys) = nd_shift x (Arr ys)"
| "nd_add (Arr xs) (Num y) = nd_shift y (Arr xs)"
| "nd_add_list [] ys = []"
| "nd_add_list (x # xs) [] = []"
| "nd_add_list (x # xs) (y # ys) = nd_add x y # nd_add_list xs ys"

definition weighted_sum :: "(nat \<rightharpoonup> real) \<Rightarrow> (nat \<times> ndarray) list \<Rightarrow> ndarray" where
  "weighted_sum w predictions =
     (case map (\<lambda>(pid, p). nd_scale (case w pid of None \<Rightarrow> 0 | Some x \<Rightarrow> x) p) predictions of
        [] \<Rightarrow> Num 0
      | t # ts \<Rightarrow> fold (\<lambda>x acc. nd_add acc x) ts t)"

text \<open>A module with two predictors, and their scores for two items.\<close>

definition example_aggregators :: "predictor_with_aggregator list" where
  "example_aggregators =
     [ \<lparr>predictor_id = 1, module_id = 7, weight = Some 3\<rparr>,
       \<lparr>predictor_id = 2, module_id = 7, weight = Some 2\<rparr> ]"

definition example_predictions :: "(nat \<times> ndarray) list" where
  "example_predictions = [(1, Arr [Num 1, Num 2]), (2, Arr [Num 10, Num 0])]"

subsection \<open>Module.predict_scores\<close>

text \<open>
  The names an instance of \<^verbatim>\<open>Module\<close> answers to: the names its class body binds, and
  the primary key it inherits. None of the other attributes a model instance inherits is
  named \<^verbatim>\<open>get_filters\<close> or \<^verbatim>\<open>get_re_renkers\<close>. Reading any other name raises
  \<^verbatim>\<open>AttributeError\<close>.
\<close>

definition Module_attributes :: "string list" where
  "Module_attributes =
     [''identifier'', ''listed_items'', ''predictors'', ''filters'', ''rerankers'', ''Meta'',
      ''__str__'', ''__unicode__'', ''get_module'', ''get_predictors'', ''get_predictor'',
      ''get_aggregator'', ''aggregate'', ''predict_scores'', ''pk'']"

definition Module_getattr :: "string \<Rightarrow> py_error + string" where
  "Module_getattr a = (if a \<in> set Module_attributes then Inr a else Inl AttributeError)"

text \<open>
  A predictor instance, a filter and a re-ranker are callables that can raise: an instance
  takes the user and the size, the other two the recommendation and the size.
\<close>

type_synonym predictor_instance = "nat \<Rightarrow> nat \<Rightarrow> py_error + ndarray"

type_synonym rfilter = "ndarray \<Rightarrow> nat \<Rightarrow> py_error + ndarray"

text \<open>
  What \<^verbatim>\<open>predict_scores\<close> reads outside its own class: the interpreter, the tables, the
  predictors of each module (the query of \<^verbatim>\<open>get_predictors\<close>), what the
  \<^verbatim>\<open>load_predictor\<close> of a class returns for a predictor row and a module, and what an
  accessor of the module, if the name is bound, returns for a module.
\<close>

record frappe =
  interpreter :: py_env
  predictor_table :: "nat \<rightharpoonup> predictor"
  module_table :: "nat \<rightharpoonup> string"
  aggregator_table :: "predictor_with_aggregator list"
  module_predictors :: "nat \<Rightarrow> nat list"
  load_predictor :: "pyobj \<Rightarrow> predictor \<Rightarrow> nat \<Rightarrow> py_error + predictor_instance"
  accessor :: "string \<Rightarrow> nat \<Rightarrow> rfilter list"

text \<open>\<^verbatim>\<open>Module.get_module\<close>: \<^verbatim>\<open>Module.objects.get(pk=module_id)\<close>.\<close>

definition get_module :: "frappe \<Rightarrow> nat \<Rightarrow> py_error + nat" where
  "get_module fr m = (case module_table fr m of None \<Rightarrow> Inl DoesNotExist | Some _ \<Rightarrow> Inr m)"

text \<open>\<^verbatim>\<open>Module.get_predictor\<close>\<close>

definition get_predictor :: "frappe \<Rightarrow> nat \<Rightarrow> nat \<Rightarrow> py_error + predictor_instance" where
  "get_predictor fr m pid =
     (case get_module fr m of
        Inl e \<Rightarrow> Inl e
      | Inr module' \<Rightarrow>
          (case get_predictor_row (predictor_table fr) pid of
             Inl e \<Rightarrow> Inl e
           | Inr p \<Rightarrow>
               (case get_class (interpreter fr) (predictor_table fr) pid of
                  Inl e \<Rightarrow> Inl e
                | Inr predictor_class \<Rightarrow> load_predictor fr predictor_class p module')))"

text \<open>
  The dictionary comprehension of \<^verbatim>\<open>predict_scores\<close>: for each predictor of the module,
  in order, the instance is fetched and called with the user and the size.
\<close>

fun recommendations ::
  "frappe \<Rightarrow> nat \<Rightarrow> nat \<Rightarrow> nat \<Rightarrow> nat list \<Rightarrow> (nat \<times> ndarray) list
     \<Rightarrow> py_error + (nat \<times> ndarray) list" where
  "recommendations fr m user sz [] d = Inr d"
| "recommendations fr m user sz (pid # pids) d =
     (case get_predictor fr m pid of
        Inl e \<Rightarrow> Inl e
      | Inr inst \<Rightarrow>
          (case inst user sz of
             Inl e \<Rightarrow> Inl e
           | Inr r \<Rightarrow> recommendations fr m user sz pids (dict_set d pid r)))"

text \<open>
  The two loops of \<^verbatim>\<open>predict_scores\<close>: each callable in turn replaces the
  recommendation by its result.
\<close>

fun apply_each :: "rfilter list \<Rightarrow> ndarray \<Rightarrow> nat \<Rightarrow> py_error + ndarray" where
  "apply_each [] r sz = Inr r"
| "apply_each (f # fs) r sz = (case f r sz of Inl e \<Rightarrow> Inl e | Inr r' \<Rightarrow> apply_each fs r' sz)"

text \<open>
  \<^verbatim>\<open>Module.predict_scores\<close> on the module with primary key \<open>m\<close>. The filters and the
  re-rankers are read through \<^verbatim>\<open>self.get_filters\<close> and \<^verbatim>\<open>self.get_re_renkers\<close>.
\<close>

definition predict_scores :: "frappe \<Rightarrow> nat \<Rightarrow> nat \<Rightarrow> nat \<Rightarrow> py_error + ndarray" where
  "predict_scores fr m user sz =
     (case recommendations fr m user sz (module_predictors fr m) [] of
        Inl e \<Rightarrow> Inl e
      | Inr recs \<Rightarrow>
          (case aggregate (aggregator_table fr) m recs of
             Inl e \<Rightarrow> Inl e
           | Inr recommendation \<Rightarrow>
               (case Module_getattr ''get_filters'' of
                  Inl e \<Rightarrow> Inl e
                | Inr get_filters \<Rightarrow>
                    (case apply_each (accessor fr get_filters m) recommendation sz of
                       Inl e \<Rightarrow> Inl e
                     | Inr filtered \<Rightarrow>
                         (case Module_getattr ''get_re_renkers'' of
                            Inl e \<Rightarrow> Inl e
                          | Inr get_re_renkers \<Rightarrow>
                              apply_each (accessor fr get_re_renkers m) filtered sz)))))"

text \<open>
  A module with one predictor of weight 1, whose class sits in a top-level module and whose
  instance scores two items; no filter and no re-ranker is configured.
\<close>

definition example_frappe :: frappe where
  "example_frappe =
     \<lparr>interpreter =
        \<lparr>importable = [''algo''],
         attrs = (\<lambda>m. if m = ''algo'' then [''Popularity'' \<mapsto> PyClass ''algo.Popularity'']
                       else Map.empty)\<rparr>,
      predictor_table = [4 \<mapsto> \<lparr>predictor_identifier = ''popularity'', python_class = ''algo.Popularity''\<rparr>],
      module_table = [7 \<mapsto> ''home''],
      aggregator_table = [ \<lparr>predictor_id = 4, module_id = 7, weight = Some 1\<rparr> ],
      module_predictors = (\<lambda>m. if m = 7 then [4] else []),
      load_predictor = (\<lambda>c p m. Inr (\<lambda>user sz. Inr (Arr [Num 5, Num 4]))),
      accessor = (\<lambda>a m. [])\<rparr>"

section \<open>recommendation/management/commands/fill.py\<close>

subsection \<open>JSON values as Python sees them\<close>

text \<open>
  What \<^verbatim>\<open>json.load\<close> returns: \<^verbatim>\<open>None\<close>, a boolean, a number (integers only here), a
  string, a list or a dictionary. A dictionary is a list of pairs with distinct keys.
  Strings are ASCII text, on which \<^verbatim>\<open>str\<close> is the identity.
\<close>

datatype json =
    JNull
  | JBool bool
  | JNum int
  | JStr string
  | JArr "json list"
  | JObj "(string \<times> json) list"

type_synonym jdict = "(string \<times> json) list"

text \<open>\<^verbatim>\<open>key in d\<close> and \<^verbatim>\<open>d.get(key, None)\<close> for a dictionary.\<close>

definition has_key :: "('k \<times> 'v) list \<Rightarrow> 'k \<Rightarrow> bool" where
  "has_key d k = (k \<in> set (map fst d))"

definition jget :: "jdict \<Rightarrow> string \<Rightarrow> json" where
  "jget d k = (case map_of d k of None \<Rightarrow> JNull | Some v \<Rightarrow> v)"

text \<open>The decimal digits of a number, for \<^verbatim>\<open>str\<close> of an integer.\<close>

fun show_nat :: "nat \<Rightarrow> string" where
  "show_nat n =
     (if n < 10 then [char_of (48 + n)]
      else show_nat (n div 10) @ [char_of (48 + n mod 10)])"

definition show_int :: "int \<Rightarrow> string" where
  "show_int i = (if i < 0 then CHR ''-'' # show_nat (nat (- i)) else show_nat (nat i))"

text \<open>
  \<^verbatim>\<open>str(v)\<close>. For a list or a dictionary the text stands for Python's \<^verbatim>\<open>repr\<close>, which
  quotes the strings inside; nothing below depends on that text.
\<close>

fun py_str :: "json \<Rightarrow> string" where
  "py_str JNull = ''None''"
| "py_str (JBool b) = (if b then ''True'' else ''False'')"
| "py_str (JNum i) = show_int i"
| "py_str (JStr s) = s"
| "py_str (JArr xs) = ''['' @ concat (map (\<lambda>x. py_str x @ '', '') xs) @ '']''"
| "py_str (JObj kvs) = ''{'' @ concat (map (\<lambda>(k, v). k @ '': '' @ py_str v @ '', '') kvs) @ ''}''"



text \<open>
  Iterating over a value: the members of a list, the keys of a dictionary, the characters
  of a string; anything else is not iterable.
\<close>

fun py_iter :: "json \<Rightarrow> py_error + json list" where
  "py_iter (JArr xs) = Inr xs"
| "py_iter (JObj kvs) = Inr (map (\<lambda>(k, v). JStr k) kvs)"
| "py_iter (JStr s) = Inr (map (\<lambda>c. JStr [c]) s)"
| "py_iter v = Inl TypeError"

text \<open>Lists and dictionaries cannot be members of a set.\<close>

fun hashable :: "json \<Rightarrow> bool" where
  "hashable (JArr xs) = False"
| "hashable (JObj kvs) = False"
| "hashable v = True"






text \<open>
  \<^verbatim>\<open>v[i]\<close>: a dictionary is looked up by key, a list or a string by position (a negative
  position counts from the end, a boolean is the position 0 or 1).
\<close>

definition seq_item :: "'a list \<Rightarrow> int \<Rightarrow> py_error + 'a" where
  "seq_item xs i =
     (if 0 \<le> i \<and> i < int (length xs) then Inr (xs ! nat i)
      else if i < 0 \<and> - i \<le> int (length xs) then Inr (xs ! nat (int (length xs) + i))
      else Inl IndexError)"

fun as_index :: "json \<Rightarrow> int option" where
  "as_index (JNum i) = Some i"
| "as_index (JBool b) = Some (if b then 1 else 0)"
| "as_index v = None"

fun py_item :: "json \<Rightarrow> json \<Rightarrow> py_error + json" where
  "py_item (JObj kvs) k =
     (if \<not> hashable k then Inl TypeError
      else (case k of JStr s \<Rightarrow> dict_item kvs s | _ \<Rightarrow> Inl KeyError))"
| "py_item (JArr xs) k = (case as_index k of None \<Rightarrow> Inl TypeError | Some i \<Rightarrow> seq_item xs i)"
| "py_item (JStr s) k =
     (case as_index k of
        None \<Rightarrow> Inl TypeError
      | Some i \<Rightarrow> (case seq_item s i of Inl e \<Rightarrow> Inl e | Inr c \<Rightarrow> Inr (JStr [c])))"
| "py_item v k = Inl TypeError"

text \<open>Sequencing of steps that can raise.\<close>

definition bind :: "py_error + 'a \<Rightarrow> ('a \<Rightarrow> py_error + 'b) \<Rightarrow> py_error + 'b" where
  "bind m f = (case m of Inl e \<Rightarrow> Inl e | Inr x \<Rightarrow> f x)"

text \<open>
  The slices \<^verbatim>\<open>xs[i:i+n]\<close> for \<^verbatim>\<open>i in range(0, len(xs), n)\<close>, in order, for a
  positive step \<open>n\<close>.
\<close>

function slices :: "nat \<Rightarrow> 'a list \<Rightarrow> 'a list list" where
  "slices n xs = (if n = 0 \<or> xs = [] then [] else take n xs # slices n (drop n xs))"
  by pat_completeness auto
termination
  by (relation "measure (\<lambda>(n, xs). length xs)") auto

declare slices.simps [simp del]

subsection \<open>The relational store\<close>

type_synonym datetime = nat

text \<open>
  The rows of the tables the tool reads and writes. A primary key is \<open>None\<close> on an
  object that has not been stored. The tables for items, users, inventory, genres and the
  two link tables are declared outside the files modelled here; their rows carry the
  fields the tool sets and reads.
\<close>

record item_row =
  item_pk :: "nat option"
  item_external_id :: string
  item_name :: json

record user_row =
  user_pk :: "nat option"
  user_external_id :: string

record inventory_row =
  inventory_pk :: "nat option"
  item_id :: "nat option"
  user_id :: "nat option"
  acquisition_date :: datetime
  dropped_date :: "datetime option"

record genre_row =
  genre_pk :: "nat option"
  genre_name :: json

record item_genre_row =
  item_genre_pk :: "nat option"
  ig_item_id :: "nat option"
  ig_type_id :: "nat option"

record item_locale_row =
  item_locale_pk :: "nat option"
  il_locale_id :: "nat option"
  il_item_id :: "nat option"

text \<open>
  The store: the tables, the record of the \<^verbatim>\<open>bulk_create\<close> calls made so far (the name
  of the model and the number of rows handed over, oldest first) and the warnings logged.
\<close>

record store =
  Item_table :: "item_row list"
  User_table :: "user_row list"
  Inventory_table :: "inventory_row list"
  Genre_table :: "genre_row list"
  ItemGenre_table :: "item_genre_row list"
  Locale_table :: "locale_row list"
  ItemLocale_table :: "item_locale_row list"
  bulk_create_log :: "(string \<times> nat) list"
  warnings :: "string list"

text \<open>
  Modelled from the spec: the store's bulk insert, which lies outside the files modelled
  here and which the spec describes as a generic bulk upsert interface. Each row handed
  over is written in turn: a row without a primary key is appended under a fresh key, a row
  whose primary key is stored replaces the stored row, any other row is appended.
\<close>

definition upsert_row ::
  "('r \<Rightarrow> nat option) \<Rightarrow> (nat \<Rightarrow> 'r \<Rightarrow> 'r) \<Rightarrow> 'r \<Rightarrow> 'r list \<Rightarrow> 'r list" where
  "upsert_row pk_of set_pk r tbl =
     (case pk_of r of
        None \<Rightarrow> tbl @ [set_pk (fresh_pk (map pk_of tbl)) r]
      | Some k \<Rightarrow>
          if Some k \<in> set (map pk_of tbl) then map (\<lambda>s. if pk_of s = Some k then r else s) tbl
          else tbl @ [r])"

definition bulk_create ::
  "('r \<Rightarrow> nat option) \<Rightarrow> (nat \<Rightarrow> 'r \<Rightarrow> 'r) \<Rightarrow> 'r list \<Rightarrow> 'r list \<Rightarrow> 'r list" where
  "bulk_create pk_of set_pk rows tbl = fold (upsert_row pk_of set_pk) rows tbl"

definition log_bulk_create :: "string \<Rightarrow> nat \<Rightarrow> store \<Rightarrow> store" where
  "log_bulk_create model n st = st\<lparr>bulk_create_log := bulk_create_log st @ [(model, n)]\<rparr>"

definition warn :: "string \<Rightarrow> store \<Rightarrow> store" where
  "warn msg st = st\<lparr>warnings := warnings st @ [msg]\<rparr>"

text \<open>
  Queries. \<^verbatim>\<open>filter(field__in=xs)\<close> keeps the rows whose field is among \<open>xs\<close>. A
  \<^verbatim>\<open>Q\<close> object built by \<^verbatim>\<open>Q() | Q(...) | ...\<close> is the list of its alternatives;
  \<^verbatim>\<open>filter(q)\<close> keeps the rows that meet one of them, and every row when \<open>q\<close> is the
  empty \<^verbatim>\<open>Q()\<close>.
\<close>

definition filter_in :: "('r \<Rightarrow> 'a) \<Rightarrow> 'a list \<Rightarrow> 'r list \<Rightarrow> 'r list" where
  "filter_in f xs tbl = filter (\<lambda>r. f r \<in> set xs) tbl"

definition filter_Q :: "('r \<Rightarrow> 'a) \<Rightarrow> 'a list \<Rightarrow> 'r list \<Rightarrow> 'r list" where
  "filter_Q f q tbl = (if q = [] then tbl else filter (\<lambda>r. f r \<in> set q) tbl)"


text \<open>\<^verbatim>\<open>del d[k]\<close> for a key that is present.\<close>

definition dict_del :: "('k \<times> 'v) list \<Rightarrow> 'k \<Rightarrow> ('k \<times> 'v) list" where
  "dict_del d k = filter (\<lambda>(k', v). k' \<noteq> k) d"

subsection \<open>FillTool\<close>

text \<open>
  The attributes of the tool that the loading functions read, with the globals they read:
  the database vendor, whether the diversity and the language applications are installed,
  the testing flag, and \<^verbatim>\<open>datetime.strptime\<close> (\<open>None\<close> when the text does not match the
  format).
\<close>

record FillTool =
  item_file_identifier_field :: string
  item_field :: string
  item_locales_field :: string
  item_genres_field :: string
  user_file_identifier_field :: string
  user_field :: string
  user_items_field :: string
  user_item_identifier_field :: string
  user_item_acquisition_field :: string
  user_item_dropped_field :: string
  date_format :: string
  vendor :: string
  diversity_installed :: bool
  language_installed :: bool
  TESTING_MODE :: bool
  strptime :: "string \<Rightarrow> string \<Rightarrow> datetime option"

definition SQLITE_MAX_ROWS :: nat where
  "SQLITE_MAX_ROWS = 950"

text \<open>\<^verbatim>\<open>datetime.strptime(v, fmt)\<close> on a JSON value.\<close>

definition parse_date :: "FillTool \<Rightarrow> json \<Rightarrow> py_error + datetime" where
  "parse_date tool v =
     (case v of
        JStr s \<Rightarrow> (case strptime tool s (date_format tool) of None \<Rightarrow> Inl ValueError | Some d \<Rightarrow> Inr d)
      | _ \<Rightarrow> Inl TypeError)"

text \<open>A loop over a list whose body updates a state and can raise.\<close>

fun for_each :: "('a \<Rightarrow> 's \<Rightarrow> 's \<times> py_error option) \<Rightarrow> 'a list \<Rightarrow> 's \<Rightarrow> 's \<times> py_error option" where
  "for_each f [] s = (s, None)"
| "for_each f (x # xs) s =
     (case f x s of
        (s', Some e) \<Rightarrow> (s', Some e)
      | (s', None) \<Rightarrow> for_each f xs s')"

text \<open>\<^verbatim>\<open>d[v]\<close> for a dictionary with string keys and a JSON value \<open>v\<close> as the key.\<close>

definition dict_item_json :: "(string \<times> 'v) list \<Rightarrow> json \<Rightarrow> py_error + 'v" where
  "dict_item_json d v =
     (if \<not> hashable v then Inl TypeError
      else (case v of JStr s \<Rightarrow> dict_item d s | _ \<Rightarrow> Inl KeyError))"

text \<open>\<^verbatim>\<open>d.get(field, ())\<close>: the empty list stands for the empty tuple.\<close>

definition get_or_empty :: "jdict \<Rightarrow> string \<Rightarrow> json" where
  "get_or_empty d k = (case map_of d k of None \<Rightarrow> JArr [] | Some v \<Rightarrow> v)"

text \<open>\<^verbatim>\<open>field in v\<close>, reached for dictionaries only.\<close>

fun json_has_key :: "json \<Rightarrow> string \<Rightarrow> bool" where
  "json_has_key (JObj kvs) k = has_key kvs k"
| "json_has_key v k = False"

subsection \<open>FillTool.fill_inventory\<close>

text \<open>
  The parts of the body of the inner loop of \<^verbatim>\<open>fill_inventory\<close>, for a user record and
  one of its listed items: the stored item \<^verbatim>\<open>items[str(json_item[identifier])]\<close>, the
  stored user \<^verbatim>\<open>users[json_user[self.user_field]]\<close>, the acquisition date, and the
  dropped date, which is read only when the record has the field.
\<close>

definition listed_item :: "FillTool \<Rightarrow> (string \<times> item_row) list \<Rightarrow> json \<Rightarrow> py_error + item_row" where
  "listed_item tool items json_item =
     bind (py_item json_item (JStr (user_item_identifier_field tool))) (\<lambda>v. dict_item items (py_str v))"

definition listing_user :: "FillTool \<Rightarrow> (string \<times> user_row) list \<Rightarrow> jdict \<Rightarrow> py_error + user_row" where
  "listing_user tool users json_user =
     bind (dict_item json_user (user_field tool)) (dict_item_json users)"

definition parse_acquired :: "FillTool \<Rightarrow> json \<Rightarrow> py_error + datetime" where
  "parse_acquired tool json_item =
     bind (py_item json_item (JStr (user_item_acquisition_field tool))) (parse_date tool)"

definition parse_dropped :: "FillTool \<Rightarrow> json \<Rightarrow> py_error + datetime option" where
  "parse_dropped tool json_item =
     (if json_has_key json_item (user_item_dropped_field tool)
      then bind (bind (py_item json_item (JStr (user_item_dropped_field tool))) (parse_date tool))
             (\<lambda>d. Inr (Some d))
      else Inr None)"

text \<open>The text of the warning for a listed item that is not stored.\<close>

definition missing_item_warning :: "json \<Rightarrow> string" where
  "missing_item_warning v = ''Item with external_id '' @ py_str v @ '' does not exist!''"

text \<open>
  The body of the inner loop. The \<^verbatim>\<open>try\<close> looks the item up; a \<^verbatim>\<open>KeyError\<close> there
  goes to the handler, which formats the warning (reading the identifier again); the
  \<^verbatim>\<open>else\<close> part builds the inventory object, and what it raises is not caught. The
  result is the warning or the object.
\<close>

definition inventory_entry ::
  "FillTool \<Rightarrow> (string \<times> user_row) list \<Rightarrow> (string \<times> item_row) list \<Rightarrow> jdict \<Rightarrow> json
     \<Rightarrow> py_error + (string + inventory_row)" where
  "inventory_entry tool users items json_user json_item =
     (case listed_item tool items json_item of
        Inl e \<Rightarrow>
          if e = KeyError
          then bind (py_item json_item (JStr (user_item_identifier_field tool)))
                 (\<lambda>v. Inr (Inl (missing_item_warning v)))
          else Inl e
      | Inr item \<Rightarrow>
          bind (listing_user tool users json_user) (\<lambda>user.
          bind (parse_acquired tool json_item) (\<lambda>acquired.
          bind (parse_dropped tool json_item) (\<lambda>dropped.
          Inr (Inr \<lparr>inventory_pk = None, item_id = item_pk item, user_id = user_pk user,
                    acquisition_date = acquired, dropped_date = dropped\<rparr>)))))"

text \<open>
  The state of the scan: the warnings logged, the alternatives of \<^verbatim>\<open>query_inventory\<close>
  and the dictionary \<^verbatim>\<open>inventory\<close>, keyed by the pair of item id and user id.
\<close>

type_synonym inventory_key = "nat option \<times> nat option"

record scan_state =
  msgs :: "string list"
  query_inventory :: "inventory_key list"
  inventory :: "(inventory_key \<times> inventory_row) list"

definition inventory_key_of :: "inventory_row \<Rightarrow> inventory_key" where
  "inventory_key_of r = (item_id r, user_id r)"

definition scan_item ::
  "FillTool \<Rightarrow> (string \<times> user_row) list \<Rightarrow> (string \<times> item_row) list \<Rightarrow> jdict \<Rightarrow> json
     \<Rightarrow> scan_state \<Rightarrow> scan_state \<times> py_error option" where
  "scan_item tool users items json_user json_item s =
     (case inventory_entry tool users items json_user json_item of
        Inl e \<Rightarrow> (s, Some e)
      | Inr (Inl msg) \<Rightarrow> (s\<lparr>msgs := msgs s @ [msg]\<rparr>, None)
      | Inr (Inr inv0) \<Rightarrow>
          (s\<lparr>query_inventory := query_inventory s @ [inventory_key_of inv0],
              inventory := dict_set (inventory s) (inventory_key_of inv0) inv0\<rparr>, None))"

definition scan_user ::
  "FillTool \<Rightarrow> (string \<times> user_row) list \<Rightarrow> (string \<times> item_row) list \<Rightarrow> jdict
     \<Rightarrow> scan_state \<Rightarrow> scan_state \<times> py_error option" where
  "scan_user tool users items json_user s =
     (case py_iter (get_or_empty json_user (user_items_field tool)) of
        Inl e \<Rightarrow> (s, Some e)
      | Inr json_items \<Rightarrow> for_each (scan_item tool users items json_user) json_items s)"

definition scan_inventory ::
  "FillTool \<Rightarrow> (string \<times> user_row) list \<Rightarrow> (string \<times> item_row) list \<Rightarrow> jdict list
     \<Rightarrow> scan_state \<times> py_error option" where
  "scan_inventory tool users items objects =
     for_each (scan_user tool users items) objects
       \<lparr>msgs = [], query_inventory = [], inventory = []\<rparr>"

text \<open>
  The body of the second loop, for one stored row \<open>inv0\<close> that the query returned: when
  the pair is in \<^verbatim>\<open>inventory\<close> and the dates differ, the stored row takes the incoming
  dates and replaces the entry; when they are equal the entry is deleted.
\<close>

definition dedupe_step ::
  "inventory_row \<Rightarrow> (inventory_key \<times> inventory_row) list \<Rightarrow> (inventory_key \<times> inventory_row) list" where
  "dedupe_step inv0 d =
     (case map_of d (inventory_key_of inv0) of
        None \<Rightarrow> d
      | Some tmp_inv \<Rightarrow>
          if acquisition_date inv0 \<noteq> acquisition_date tmp_inv \<or> dropped_date inv0 \<noteq> dropped_date tmp_inv
          then dict_set d (inventory_key_of inv0)
                 (inv0\<lparr>acquisition_date := acquisition_date tmp_inv, dropped_date := dropped_date tmp_inv\<rparr>)
          else dict_del d (inventory_key_of inv0))"

text \<open>
  The dictionary \<^verbatim>\<open>inventory\<close> after the second loop, from the state of a scan that did
  not raise and the stored inventory; its values are the rows \<^verbatim>\<open>fill_inventory\<close> hands
  to \<^verbatim>\<open>bulk_create\<close>.
\<close>

definition deduped :: "scan_state \<Rightarrow> inventory_row list \<Rightarrow> (inventory_key \<times> inventory_row) list" where
  "deduped s tbl = fold dedupe_step (filter_Q inventory_key_of (query_inventory s) tbl) (inventory s)"

definition inventory_batch :: "scan_state \<Rightarrow> inventory_row list \<Rightarrow> inventory_row list" where
  "inventory_batch s tbl = dict_values (deduped s tbl)"

definition set_inventory_pk :: "nat \<Rightarrow> inventory_row \<Rightarrow> inventory_row" where
  "set_inventory_pk k r = r\<lparr>inventory_pk := Some k\<rparr>"

text \<open>
  \<^verbatim>\<open>fill_inventory\<close>: the store after the call and the exception that ended it, if any.
\<close>

definition fill_inventory ::
  "FillTool \<Rightarrow> (string \<times> user_row) list \<Rightarrow> (string \<times> item_row) list \<Rightarrow> jdict list \<Rightarrow> store
     \<Rightarrow> store \<times> py_error option" where
  "fill_inventory tool users items objects st =
     (case scan_inventory tool users items objects of
        (s, Some e) \<Rightarrow> (st\<lparr>warnings := warnings st @ msgs s\<rparr>, Some e)
      | (s, None) \<Rightarrow>
          (let rows = inventory_batch s (Inventory_table st)
           in (log_bulk_create ''Inventory'' (length rows)
                 (st\<lparr>warnings := warnings st @ msgs s,
                     Inventory_table :=
                       bulk_create inventory_pk set_inventory_pk rows (Inventory_table st)\<rparr>),
               None)))"

text \<open>
  What the scan of \<^verbatim>\<open>fill_inventory\<close> makes of the listed items when it raises nothing:
  the inventory objects built, in the order of the listings, and the warnings logged.
\<close>

definition entries_of_user ::
  "FillTool \<Rightarrow> (string \<times> user_row) list \<Rightarrow> (string \<times> item_row) list \<Rightarrow> jdict \<Rightarrow> inventory_row list" where
  "entries_of_user tool users items json_user =
     (case py_iter (get_or_empty json_user (user_items_field tool)) of
        Inl e \<Rightarrow> []
      | Inr json_items \<Rightarrow>
          concat (map (\<lambda>json_item. case inventory_entry tool users items json_user json_item of
                                      Inr (Inr r) \<Rightarrow> [r] | _ \<Rightarrow> []) json_items))"

definition listed_entries ::
  "FillTool \<Rightarrow> (string \<times> user_row) list \<Rightarrow> (string \<times> item_row) list \<Rightarrow> jdict list \<Rightarrow> inventory_row list" where
  "listed_entries tool users items objects = concat (map (entries_of_user tool users items) objects)"

definition warnings_of_user ::
  "FillTool \<Rightarrow> (string \<times> user_row) list \<Rightarrow> (string \<times> item_row) list \<Rightarrow> jdict \<Rightarrow> string list" where
  "warnings_of_user tool users items json_user =
     (case py_iter (get_or_empty json_user (user_items_field tool)) of
        Inl e \<Rightarrow> []
      | Inr json_items \<Rightarrow>
          concat (map (\<lambda>json_item. case inventory_entry tool users items json_user json_item of
                                      Inr (Inl msg) \<Rightarrow> [msg] | _ \<Rightarrow> []) json_items))"

definition listed_warnings ::
  "FillTool \<Rightarrow> (string \<times> user_row) list \<Rightarrow> (string \<times> item_row) list \<Rightarrow> jdict list \<Rightarrow> string list" where
  "listed_warnings tool users items objects = concat (map (warnings_of_user tool users items) objects)"

text \<open>
  The incoming object for a pair of item id and user id: the one built from the last
  listing of the pair, if the pair is listed.
\<close>

definition incoming ::
  "FillTool \<Rightarrow> (string \<times> user_row) list \<Rightarrow> (string \<times> item_row) list \<Rightarrow> jdict list \<Rightarrow> inventory_key
     \<Rightarrow> inventory_row option" where
  "incoming tool users items objects k =
     (case filter (\<lambda>e. inventory_key_of e = k) (listed_entries tool users items objects) of
        [] \<Rightarrow> None
      | x # xs \<Rightarrow> Some (last (x # xs)))"

text \<open>Two inventory rows with the same two dates; a row given the dates of another.\<close>

definition same_dates :: "inventory_row \<Rightarrow> inventory_row \<Rightarrow> bool" where
  "same_dates r v = (acquisition_date r = acquisition_date v \<and> dropped_date r = dropped_date v)"

definition with_dates :: "inventory_row \<Rightarrow> inventory_row \<Rightarrow> inventory_row" where
  "with_dates r v = r\<lparr>acquisition_date := acquisition_date v, dropped_date := dropped_date v\<rparr>"

text \<open>
  Primary keys in the stored inventory: every stored row has one and no two rows share
  one.
\<close>

definition inventory_pks_ok :: "inventory_row list \<Rightarrow> bool" where
  "inventory_pks_ok tbl = (distinct (map inventory_pk tbl) \<and> None \<notin> set (map inventory_pk tbl))"

text \<open>
  What holds of the dictionary \<^verbatim>\<open>inventory\<close> throughout \<^verbatim>\<open>fill_inventory\<close>: no pair
  is a key twice, every entry is filed under its own pair, and an entry that carries a
  primary key carries the key of a stored row of that pair.
\<close>

definition batch_inv :: "inventory_row list \<Rightarrow> (inventory_key \<times> inventory_row) list \<Rightarrow> bool" where
  "batch_inv T d =
     (distinct (dict_keys d)
      \<and> (\<forall>kv \<in> set d. inventory_key_of (snd kv) = fst kv
            \<and> (inventory_pk (snd kv) = None
                \<or> (\<exists>r \<in> set T. inventory_pk (snd kv) = inventory_pk r \<and> inventory_key_of r = fst kv))))"

subsection \<open>FillTool.fill_db_with_users\<close>

text \<open>A loop over a list whose body computes the next state or raises.\<close>

fun fold_raise :: "('a \<Rightarrow> 's \<Rightarrow> py_error + 's) \<Rightarrow> 'a list \<Rightarrow> 's \<Rightarrow> py_error + 's" where
  "fold_raise f [] s = Inr s"
| "fold_raise f (x # xs) s = (case f x s of Inl e \<Rightarrow> Inl e | Inr s' \<Rightarrow> fold_raise f xs s')"

text \<open>\<^verbatim>\<open>d.update({key(r): r for r in rows})\<close>, and the same loop written with assignments.\<close>

definition dict_update :: "('k \<times> 'r) list \<Rightarrow> ('r \<Rightarrow> 'k) \<Rightarrow> 'r list \<Rightarrow> ('k \<times> 'r) list" where
  "dict_update d key rows = fold (\<lambda>r d. dict_set d (key r) r) rows d"

text \<open>\<^verbatim>\<open>item[field] = str(item[field])\<close> on a listed item of a user record.\<close>

definition str_item :: "FillTool \<Rightarrow> json \<Rightarrow> py_error + json" where
  "str_item tool item =
     (case item of
        JObj kvs \<Rightarrow>
          bind (dict_item kvs (user_item_identifier_field tool))
            (\<lambda>v. Inr (JObj (dict_set kvs (user_item_identifier_field tool) (JStr (py_str v)))))
      | _ \<Rightarrow> Inl TypeError)"

text \<open>
  The body of the first loop for a record that has the file identifier: the user
  identifier and the identifier of every listed item are replaced by their \<^verbatim>\<open>str\<close>.
\<close>

definition str_user :: "FillTool \<Rightarrow> jdict \<Rightarrow> py_error + jdict" where
  "str_user tool obj =
     bind (dict_item obj (user_field tool)) (\<lambda>v.
       (let obj1 = dict_set obj (user_field tool) (JStr (py_str v))
        in bind (py_iter (get_or_empty obj1 (user_items_field tool))) (\<lambda>its.
           bind (map_raise (str_item tool) its) (\<lambda>its'.
             Inr (case map_of obj1 (user_items_field tool) of
                    Some (JArr xs) \<Rightarrow> dict_set obj1 (user_items_field tool) (JArr its')
                  | _ \<Rightarrow> obj1)))))"

definition user_objects :: "FillTool \<Rightarrow> jdict list \<Rightarrow> py_error + jdict list" where
  "user_objects tool objects =
     map_raise (str_user tool) (filter (\<lambda>obj. has_key obj (user_file_identifier_field tool)) objects)"

text \<open>\<^verbatim>\<open>obj[field]\<close> for a field that holds a string.\<close>

definition str_field :: "jdict \<Rightarrow> string \<Rightarrow> string" where
  "str_field obj f = py_str (jget obj f)"

text \<open>\<^verbatim>\<open>{json_user[self.user_field]: json_user for json_user in self.objects}\<close>\<close>

definition json_users_of :: "FillTool \<Rightarrow> jdict list \<Rightarrow> (string \<times> jdict) list" where
  "json_users_of tool objs = dict_update [] (\<lambda>obj. str_field obj (user_field tool)) objs"

text \<open>
  The body of the loop over \<^verbatim>\<open>json_users.items()\<close>: a user whose identifier is not
  among the stored users gets a new object, and the identifiers of the listed items are
  added to \<^verbatim>\<open>item_eids\<close>.
\<close>

definition listed_item_eids :: "FillTool \<Rightarrow> jdict \<Rightarrow> py_error + string list" where
  "listed_item_eids tool json_user =
     bind (py_iter (get_or_empty json_user (user_items_field tool)))
       (map_raise (\<lambda>x. bind (py_item x (JStr (user_item_identifier_field tool))) (\<lambda>v. Inr (py_str v))))"

definition new_user_step ::
  "FillTool \<Rightarrow> (string \<times> user_row) list \<Rightarrow> string \<times> jdict
     \<Rightarrow> (string \<times> user_row) list \<times> string list
     \<Rightarrow> py_error + ((string \<times> user_row) list \<times> string list)" where
  "new_user_step tool users kv s =
     (case (kv, s) of
        ((user_eid, json_user), (new_users, item_eids)) \<Rightarrow>
          (let new_users' =
                 (if \<not> has_key users user_eid
                  then dict_set new_users user_eid \<lparr>user_pk = None, user_external_id = user_eid\<rparr>
                  else new_users)
           in bind (listed_item_eids tool json_user)
                (\<lambda>eids. Inr (new_users', List.union item_eids eids))))"

definition scan_user_records ::
  "FillTool \<Rightarrow> (string \<times> user_row) list \<Rightarrow> (string \<times> jdict) list
     \<Rightarrow> py_error + ((string \<times> user_row) list \<times> string list)" where
  "scan_user_records tool users json_users = fold_raise (new_user_step tool users) json_users ([], [])"

text \<open>\<^verbatim>\<open>{user.external_id: user for user in User.objects.filter(external_id__in=json_users)}\<close>\<close>

definition stored_users :: "(string \<times> jdict) list \<Rightarrow> store \<Rightarrow> (string \<times> user_row) list" where
  "stored_users json_users st =
     dict_update [] user_external_id (filter_in user_external_id (dict_keys json_users) (User_table st))"

text \<open>
  The part of \<^verbatim>\<open>fill_db_with_users\<close> before the store is written: the records that are
  kept, and the new users and item identifiers found in them.
\<close>

definition user_scan_of ::
  "FillTool \<Rightarrow> jdict list \<Rightarrow> store
     \<Rightarrow> py_error + (jdict list \<times> (string \<times> user_row) list \<times> string list)" where
  "user_scan_of tool objects st =
     bind (user_objects tool objects) (\<lambda>objs.
     bind (scan_user_records tool (stored_users (json_users_of tool objs) st) (json_users_of tool objs))
       (\<lambda>sc. Inr (objs, sc)))"

definition set_user_pk :: "nat \<Rightarrow> user_row \<Rightarrow> user_row" where
  "set_user_pk k r = r\<lparr>user_pk := Some k\<rparr>"

text \<open>
  \<^verbatim>\<open>fill_db_with_users\<close>: the store after the call and the exception that ended it, if
  any. The new users go to the store in one \<^verbatim>\<open>bulk_create\<close> call, whatever the vendor.
\<close>

definition fill_db_with_users :: "FillTool \<Rightarrow> jdict list \<Rightarrow> store \<Rightarrow> store \<times> py_error option" where
  "fill_db_with_users tool objects st =
     (case user_scan_of tool objects st of
        Inl e \<Rightarrow> (st, Some e)
      | Inr (objs, new_users, item_eids) \<Rightarrow>
          (let users = stored_users (json_users_of tool objs) st;
               st1 = log_bulk_create ''User'' (length (dict_values new_users))
                       (st\<lparr>User_table :=
                             bulk_create user_pk set_user_pk (dict_values new_users) (User_table st)\<rparr>);
               users1 = dict_update users user_external_id
                          (filter_in user_external_id (dict_keys new_users) (User_table st1))
           in if length users1 \<noteq> length objs then (st1, Some AssertionError)
              else (let items = dict_update [] item_external_id
                                  (filter_in item_external_id item_eids (Item_table st1))
                    in fill_inventory tool users1 items objs st1)))"

subsection \<open>FillTool.fill_db_with_items: the scan and the insertion of items\<close>






















subsection \<open>FillTool.get_genres\<close>




subsection \<open>FillTool.get_locales\<close>













subsection \<open>FillTool.fill_item_genre and FillTool.fill_item_locale\<close>















subsection \<open>FillTool.fill_db_with_items\<close>





subsection \<open>Example inputs for the fill tool\<close>

text \<open>
  The tool with the defaults of its command line, on sqlite, with both applications
  installed, and a date parser that knows two dates; the empty store; and 951 user records
  with distinct identifiers and no items.
\<close>

definition default_tool :: FillTool where
  "default_tool =
     \<lparr>item_file_identifier_field = ''item'', item_field = ''external_id'',
      item_locales_field = ''locales'', item_genres_field = ''genres'',
      user_file_identifier_field = ''user'', user_field = ''external_id'',
      user_items_field = ''items'', user_item_identifier_field = ''external_id'',
      user_item_acquisition_field = ''acquired'', user_item_dropped_field = ''dropped'',
      date_format = ''%Y-%m-%dT%H:%M:%S'', vendor = ''sqlite'',
      diversity_installed = True, language_installed = True, TESTING_MODE = False,
      strptime = (\<lambda>s fmt. if s = ''2015-01-01T00:00:00'' then Some 10
                        else if s = ''2015-02-01T00:00:00'' then Some 20 else None)\<rparr>"

definition empty_store :: store where
  "empty_store =
     \<lparr>Item_table = [], User_table = [], Inventory_table = [], Genre_table = [],
      ItemGenre_table = [], Locale_table = [], ItemLocale_table = [],
      bulk_create_log = [], warnings = []\<rparr>"

definition many_users :: "jdict list" where
  "many_users =
     map (\<lambda>n. [(''user'', JBool True), (''external_id'', JStr (replicate (Suc n) CHR ''u''))])
       [0..<951]"






subsection \<open>Example inputs for the inventory\<close>

definition inventory_users :: "(string \<times> user_row) list" where
  "inventory_users = [(''u'', \<lparr>user_pk = Some 8, user_external_id = ''u''\<rparr>)]"

definition inventory_items :: "(string \<times> item_row) list" where
  "inventory_items = [(''a'', \<lparr>item_pk = Some 5, item_external_id = ''a'', item_name = JStr ''A''\<rparr>)]"

definition known_listing :: json where
  "known_listing = JObj [(''external_id'', JStr ''a''), (''acquired'', JStr ''2015-01-01T00:00:00'')]"

definition unknown_listing :: json where
  "unknown_listing = JObj [(''external_id'', JStr ''zz''), (''acquired'', JStr ''2015-01-01T00:00:00'')]"

definition listing_record :: jdict where
  "listing_record =
     [(''user'', JBool True), (''external_id'', JStr ''u''),
      (''items'', JArr [known_listing, unknown_listing])]"

definition stored_inventory_row :: inventory_row where
  "stored_inventory_row =
     \<lparr>inventory_pk = Some 3, item_id = Some 5, user_id = Some 8,
      acquisition_date = 20, dropped_date = None\<rparr>"

definition new_inventory_row :: inventory_row where
  "new_inventory_row =
     \<lparr>inventory_pk = None, item_id = Some 5, user_id = Some 8,
      acquisition_date = 10, dropped_date = None\<rparr>"

definition inventory_store :: store where
  "inventory_store = empty_store\<lparr>Inventory_table := [stored_inventory_row]\<rparr>"

chapter \<open>Properties\<close>

section \<open>Locale.save stores lower-case codes\<close>

lemma lower_char_not_upper: "\<not> is_upper (lower_char c)"
proof (cases "is_upper c")
  case True
  then have "(of_char c :: nat) + 32 < 256" by (simp add: is_upper_def)
  then have "(of_char (char_of ((of_char c :: nat) + 32)) :: nat) = of_char c + 32"
    by simp
  with True show ?thesis by (simp add: lower_char_def is_upper_def)
next
  case False
  then show ?thesis by (simp add: lower_char_def)
qed

lemma lower_case_lower: "lower_case (lower s)"
  by (simp add: lower_case_def lower_def lower_char_not_upper)

lemma model_save_rows:
  assumes "model_save tbl l = Inr (l', tbl')"
  shows "set tbl' \<subseteq> insert l' (set tbl)" and "l' \<in> set tbl'"
    and "language_code l' = language_code l" and "country_code l' = country_code l"
  using assms
  by (auto simp: model_save_def Let_def split: if_splits)

text \<open>
  C8. Whatever the case of the codes on the instance, a \<^verbatim>\<open>Locale.save\<close> that the
  database accepts stores a row whose two codes are in lower case, the instance's codes
  lowered; and when every stored row had lower-case codes before the call, every stored row
  has them after it. The only way the call fails is the database's uniqueness check, which
  stores nothing.
\<close>

theorem Locale_save_lower_case:
  "(case Locale_save tbl l of
      Inl e \<Rightarrow> e = IntegrityError
    | Inr (l', tbl') \<Rightarrow>
        l' \<in> set tbl' \<and> locale_lower l'
        \<and> language_code l' = lower (language_code l)
        \<and> country_code l' = lower (country_code l)
        \<and> ((\<forall>r \<in> set tbl. locale_lower r) \<longrightarrow> (\<forall>r \<in> set tbl'. locale_lower r)))"
proof (cases "Locale_save tbl l")
  case (Inl e)
  then show ?thesis
    by (auto simp: Locale_save_def model_save_def Let_def split: if_splits)
next
  case (Inr p)
  obtain l' tbl' where p: "p = (l', tbl')" by (cases p)
  let ?m = "l\<lparr>language_code := lower (language_code l), country_code := lower (country_code l)\<rparr>"
  from Inr p have s: "model_save tbl ?m = Inr (l', tbl')" by (simp add: Locale_save_def)
  note r = model_save_rows [OF s]
  have codes: "language_code l' = lower (language_code l)" "country_code l' = lower (country_code l)"
    using r(3,4) by simp_all
  then have low: "locale_lower l'" by (simp add: locale_lower_def lower_case_lower)
  have "(\<forall>r \<in> set tbl. locale_lower r) \<longrightarrow> (\<forall>r \<in> set tbl'. locale_lower r)"
    using r(1) low by auto
  with Inr p r(2) codes low show ?thesis by simp
qed

theorem Locale_save_lower_case_witness:
  "(case Locale_save [ \<lparr>locale_pk = Some 1, language_code = ''pt'', country_code = ''br'', locale_name = []\<rparr> ]
           \<lparr>locale_pk = None, language_code = ''EN'', country_code = ''Us'', locale_name = []\<rparr> of
      Inl e \<Rightarrow> False
    | Inr (l', tbl') \<Rightarrow>
        language_code l' = ''en'' \<and> country_code l' = ''us'' \<and> l' \<in> set tbl'
        \<and> (\<forall>r \<in> set tbl'. locale_lower r))"
proof -
  have e: "lower ''EN'' = ''en''" "lower ''Us'' = ''us''" "lower ''pt'' = ''pt''" "lower ''br'' = ''br''"
    by code_simp+
  show ?thesis
    using Locale_save_lower_case
      [where tbl = "[ \<lparr>locale_pk = Some 1, language_code = ''pt'', country_code = ''br'', locale_name = []\<rparr> ]"
         and l = "\<lparr>locale_pk = None, language_code = ''EN'', country_code = ''Us'', locale_name = []\<rparr>"]
    by (simp add: Locale_save_def model_save_def violates_unique_def Let_def e
        is_upper_def locale_lower_def lower_case_def fresh_pk_def)
qed

section \<open>The item caches under the m2m handler\<close>

lemma add_step_item_locales:
  "item_locales (add_step pk i c) =
     (item_locales c)(i \<mapsto> (case item_locales c i of None \<Rightarrow> {pk} | Some s \<Rightarrow> s))"
  by (simp add: add_step_def dict_get_def Let_def)

lemma add_step_items_by_locale:
  "items_by_locale (add_step pk i c) =
     (items_by_locale c)(pk \<mapsto> (case items_by_locale c pk of None \<Rightarrow> {i} | Some s \<Rightarrow> insert i s))"
  by (simp add: add_step_def dict_get_def Let_def split: option.splits)

text \<open>
  An item that already has an entry in \<^verbatim>\<open>item_locales\<close> keeps that entry as it is when it
  is added to a further locale, while \<^verbatim>\<open>items_by_locale\<close> does record the item.
\<close>

lemma add_step_keeps_entry:
  "item_locales c i = Some s \<Longrightarrow>
     item_locales (add_step pk i c) i = Some s \<and> i \<in> dict_get (items_by_locale (add_step pk i c)) pk {}"
  by (simp add: add_step_item_locales add_step_items_by_locale dict_get_def split: option.splits)

text \<open>
  The handler compares the action with \<^verbatim>\<open>"post_save"\<close>; under the action name
  \<^verbatim>\<open>"post_add"\<close> it changes nothing.
\<close>

lemma add_item_locale_to_cache_post_add:
  "add_item_locale_to_cache pk ''post_add'' pk_set c = (c, None)"
  by (simp add: add_item_locale_to_cache_def)

text \<open>
  A removal of at least one item ends in \<^verbatim>\<open>AttributeError\<close>, after the first item's
  entry of \<^verbatim>\<open>item_locales\<close> has lost the locale and before \<^verbatim>\<open>items_by_locale\<close> is
  touched.
\<close>

lemma add_item_locale_to_cache_post_remove:
  "add_item_locale_to_cache pk ''post_remove'' (i # is) c =
     (c\<lparr>item_locales := (item_locales c)(i \<mapsto> dict_get (item_locales c) i {} - {pk})\<rparr>,
      Some AttributeError)"
  by (simp add: add_item_locale_to_cache_def remove_step_def Locale_getattr_def
      Locale_cache_attributes_def Let_def)

text \<open>
  C10, at the failing input. Starting from empty caches, item 1 is added to locale 10 and
  then to locale 20, each time through the branch the handler has for additions. Neither
  call raises. Afterwards the item's entry of \<^verbatim>\<open>item_locales\<close> is still \<open>{10}\<close>, while
  \<^verbatim>\<open>items_by_locale\<close> lists the item under locale 20: the caches are not consistent, and
  the second addition did not record locale 20 for the item.
\<close>

theorem add_item_locale_to_cache_second_locale:
  "(let (c1, e1) = add_item_locale_to_cache 10 ''post_save'' [1] empty_caches;
        (c2, e2) = add_item_locale_to_cache 20 ''post_save'' [1] c1
    in e1 = None \<and> e2 = None
       \<and> item_locales c2 1 = Some {10}
       \<and> items_by_locale c2 20 = Some {1}
       \<and> \<not> caches_consistent c2)"
proof -
  define c1 where "c1 = add_step 10 1 empty_caches"
  define c2 where "c2 = add_step 20 1 c1"
  have i1: "item_locales c1 1 = Some {10}"
    by (simp add: c1_def add_step_item_locales empty_caches_def)
  have i2: "item_locales c2 1 = Some {10}"
    using i1 by (simp add: c2_def add_step_item_locales)
  have b2: "items_by_locale c2 20 = Some {1}"
    by (simp add: c2_def c1_def add_step_items_by_locale empty_caches_def)
  have "(20 \<in> dict_get (item_locales c2) 1 {}) \<noteq> (1 \<in> dict_get (items_by_locale c2) 20 {})"
    using i2 b2 by (simp add: dict_get_def)
  then have "\<not> caches_consistent c2"
    unfolding caches_consistent_def by blast
  with i2 b2 show ?thesis
    by (simp add: add_item_locale_to_cache_def c1_def c2_def)
qed

section \<open>Resolving a predictor's class\<close>

lemma split_on_not_Nil: "split_on sep s \<noteq> []"
  by (induction s) (auto split: list.splits)

text \<open>
  C3, at the failing input. The predictor's \<^verbatim>\<open>python_class\<close> is \<open>pkg.algo.Popularity\<close>;
  the module \<open>pkg.algo\<close> can be imported and defines the class. The path denotes that
  class, and \<^verbatim>\<open>get_class\<close> raises \<^verbatim>\<open>AttributeError\<close>: it looks \<open>Popularity\<close> up in the
  package \<open>pkg\<close> that \<^verbatim>\<open>__import__\<close> returns.
\<close>

theorem get_class_nested_module:
  "denoted_class example_env [''pkg'', ''algo''] ''Popularity'' = Some (PyClass ''pkg.algo.Popularity'')
   \<and> get_class example_env example_predictors 1 = Inl AttributeError"
  by (simp add: denoted_class_def get_class_def get_predictor_row_def example_env_def
      example_predictors_def py_import_def py_getattr_def Let_def)

section \<open>Aggregating predictions\<close>

text \<open>
  C2, at the failing input. Predictor 1 has weight 3 and scores \<open>[1, 2]\<close>, predictor 2
  has weight 2 and scores \<open>[10, 0]\<close>. The weighted sum of the predictions is the array
  \<open>[23, 6]\<close>; \<^verbatim>\<open>aggregate\<close> returns the number 29, the total of that array's elements.
\<close>

theorem aggregate_array_predictions:
  "weighted_sum [1 \<mapsto> 3, 2 \<mapsto> 2] example_predictions = Arr [Num 23, Num 6]
   \<and> aggregate example_aggregators 7 example_predictions = Inr (Num 29)"
  by (simp add: weighted_sum_def aggregate_def example_predictions_def example_aggregators_def
      get_aggregator_def dict_keys_def weighted_def dict_item_def np_sum_def Let_def)

section \<open>The prediction pipeline\<close>

text \<open>
  Whatever the module, the user and the size, \<^verbatim>\<open>predict_scores\<close> ends in an exception: a
  run whose predictors and aggregation succeed reaches \<^verbatim>\<open>self.get_filters\<close>, a name the
  class does not bind.
\<close>

lemma predict_scores_raises: "\<exists>e. predict_scores fr m user sz = Inl e"
  by (simp add: predict_scores_def Module_getattr_def Module_attributes_def
      split: sum.splits)

text \<open>
  C1, at the failing input. The module has one predictor, which loads and scores two
  items, and a weight for it, so the predictor is invoked and the aggregation succeeds (it
  returns 9). \<^verbatim>\<open>predict_scores\<close> then raises \<^verbatim>\<open>AttributeError\<close>: no filter and no
  re-ranker is applied and no recommendation is returned.
\<close>

theorem predict_scores_attribute_error:
  "recommendations example_frappe 7 3 2 (module_predictors example_frappe 7) []
     = Inr [(4, Arr [Num 5, Num 4])]
   \<and> aggregate (aggregator_table example_frappe) 7 [(4, Arr [Num 5, Num 4])] = Inr (Num 9)
   \<and> predict_scores example_frappe 7 3 2 = Inl AttributeError"
proof -
  have r: "recommendations example_frappe 7 3 2 (module_predictors example_frappe 7) []
             = Inr [(4, Arr [Num 5, Num 4])]"
    by (simp add: example_frappe_def get_predictor_def get_module_def get_predictor_row_def
        get_class_def py_import_def py_getattr_def Let_def)
  have a: "aggregate (aggregator_table example_frappe) 7 [(4, Arr [Num 5, Num 4])] = Inr (Num 9)"
    by (simp add: example_frappe_def aggregate_def get_aggregator_def dict_keys_def weighted_def
        dict_item_def np_sum_def Let_def)
  have "predict_scores example_frappe 7 3 2 = Inl AttributeError"
    by (simp add: predict_scores_def r a Module_getattr_def Module_attributes_def)
  with r a show ?thesis by simp
qed

section \<open>Dictionaries, loops and the store\<close>

lemma dict_keys_Nil [simp]: "dict_keys [] = []"
  by (simp add: dict_keys_def)

lemma dict_values_Nil [simp]: "dict_values [] = []"
  by (simp add: dict_values_def)

lemma map_of_dict_set: "map_of (dict_set d k v) = (map_of d)(k \<mapsto> v)"
  by (induction d k v rule: dict_set.induct) (auto simp: fun_eq_iff)

lemma dict_keys_dict_set:
  "dict_keys (dict_set d k v) = (if k \<in> set (dict_keys d) then dict_keys d else dict_keys d @ [k])"
  by (induction d k v rule: dict_set.induct) (auto simp: dict_keys_def)

lemma dict_set_absent: "k \<notin> set (dict_keys d) \<Longrightarrow> dict_set d k v = d @ [(k, v)]"
  by (induction d k v rule: dict_set.induct) (auto simp: dict_keys_def)

lemma distinct_dict_set: "distinct (dict_keys d) \<Longrightarrow> distinct (dict_keys (dict_set d k v))"
  by (simp add: dict_keys_dict_set)

lemma has_key_keys: "has_key d k = (k \<in> set (dict_keys d))"
  by (simp add: has_key_def dict_keys_def)

lemma length_dict_keys: "length (dict_keys d) = length d"
  by (simp add: dict_keys_def)

lemma length_dict_values: "length (dict_values d) = length d"
  by (simp add: dict_values_def)

lemma set_dict_keys_update:
  "set (dict_keys (dict_update d key rows)) = set (dict_keys d) \<union> key ` set rows"
  unfolding dict_update_def
  by (induction rows arbitrary: d) (auto simp: dict_keys_dict_set)

lemma distinct_dict_update:
  "distinct (dict_keys d) \<Longrightarrow> distinct (dict_keys (dict_update d key rows))"
  unfolding dict_update_def
  by (induction rows arbitrary: d) (auto simp: distinct_dict_set)

lemma map_raise_Inr:
  "map_raise f xs = Inr ys \<Longrightarrow> length ys = length xs \<and> (\<forall>i < length xs. f (xs ! i) = Inr (ys ! i))"
proof (induction xs arbitrary: ys)
  case Nil then show ?case by simp
next
  case (Cons x xs)
  then show ?case
    by (auto split: sum.splits simp: nth_Cons split: nat.splits)
qed

lemma map_raise_all: "(\<And>x. x \<in> set xs \<Longrightarrow> f x = Inr (g x)) \<Longrightarrow> map_raise f xs = Inr (map g xs)"
  by (induction xs) auto


lemma slices_length: "ys \<in> set (slices n xs) \<Longrightarrow> length ys \<le> n \<and> ys \<noteq> []"
proof (induction n xs rule: slices.induct)
  case (1 n xs)
  from "1.prems" show ?case
    by (subst (asm) slices.simps) (use "1.IH" in \<open>auto split: if_splits\<close>)
qed

lemma dict_update_fresh:
  "distinct (map key rows) \<Longrightarrow> set (dict_keys d) \<inter> key ` set rows = {} \<Longrightarrow>
     dict_update d key rows = d @ map (\<lambda>r. (key r, r)) rows"
  unfolding dict_update_def
proof (induction rows arbitrary: d)
  case Nil then show ?case by simp
next
  case (Cons r rows)
  have a: "dict_set d (key r) r = d @ [(key r, r)]"
    using Cons.prems by (intro dict_set_absent) auto
  have "set (dict_keys (d @ [(key r, r)])) \<inter> key ` set rows = {}"
    using Cons.prems by (auto simp: dict_keys_def)
  with Cons.IH [of "d @ [(key r, r)]"] Cons.prems a show ?case by simp
qed

lemma fresh_pk_gt: "Some k \<in> set pks \<Longrightarrow> k < fresh_pk pks"
proof -
  have g: "\<And>a. a \<le> fold max (xs::nat list) a" for xs
    by (induction xs) (auto intro: order_trans [OF max.cobounded2])
  have "\<And>a. x \<in> set xs \<Longrightarrow> x \<le> fold max (xs::nat list) a" for x xs
  proof (induction xs)
    case Nil then show ?case by simp
  next
    case (Cons y ys)
    show ?case
    proof (cases "x = y")
      case True
      have "y \<le> max y a" by simp
      also have "\<dots> \<le> fold max ys (max y a)" by (rule g)
      finally show ?thesis using True by simp
    next
      case False with Cons show ?thesis by simp
    qed
  qed
  from this [of k "map (\<lambda>p. case p of None \<Rightarrow> 0 | Some k \<Rightarrow> k) pks" 0]
  show "Some k \<in> set pks \<Longrightarrow> k < fresh_pk pks"
    by (force simp: fresh_pk_def less_Suc_eq_le)
qed

text \<open>A \<^verbatim>\<open>bulk_create\<close> of rows that have no primary key appends them.\<close>

lemma bulk_create_new:
  assumes "\<And>r. r \<in> set rows \<Longrightarrow> pk_of r = None"
  shows "\<exists>new. bulk_create pk_of set_pk rows tbl = tbl @ new
           \<and> list_all2 (\<lambda>n r. \<exists>k. n = set_pk k r) new rows"
  using assms unfolding bulk_create_def
proof (induction rows arbitrary: tbl)
  case Nil then show ?case by simp
next
  case (Cons r rows)
  have u: "upsert_row pk_of set_pk r tbl = tbl @ [set_pk (fresh_pk (map pk_of tbl)) r]"
    using Cons.prems by (simp add: upsert_row_def)
  from Cons.IH [of "tbl @ [set_pk (fresh_pk (map pk_of tbl)) r]"] Cons.prems
  obtain new where n: "fold (upsert_row pk_of set_pk) rows (tbl @ [set_pk (fresh_pk (map pk_of tbl)) r])
       = (tbl @ [set_pk (fresh_pk (map pk_of tbl)) r]) @ new"
     "list_all2 (\<lambda>n r. \<exists>k. n = set_pk k r) new rows" by auto
  show ?case
    by (rule exI [of _ "set_pk (fresh_pk (map pk_of tbl)) r # new"]) (use u n in auto)
qed

lemma bulk_create_new_map:
  assumes "\<And>r. r \<in> set rows \<Longrightarrow> pk_of r = None" and "\<And>k r. g (set_pk k r) = g r"
  shows "\<exists>new. bulk_create pk_of set_pk rows tbl = tbl @ new \<and> map g new = map g rows"
proof -
  from bulk_create_new [where rows = rows and pk_of = pk_of and set_pk = set_pk and tbl = tbl, OF assms(1)] obtain new where
    n: "bulk_create pk_of set_pk rows tbl = tbl @ new" "list_all2 (\<lambda>n r. \<exists>k. n = set_pk k r) new rows"
    by blast
  from n(2) have "map g new = map g rows"
    by (induction rule: list_all2_induct) (auto simp: assms(2))
  with n(1) show ?thesis by blast
qed

section \<open>Loading users\<close>

lemma new_users_char:
  assumes "fold_raise (new_user_step tool users) kvs (nu0, e0) = Inr (nu, e)"
    and "distinct (map fst kvs)" and "set (dict_keys nu0) \<inter> set (map fst kvs) = {}"
  shows "nu = nu0 @ map (\<lambda>k. (k, \<lparr>user_pk = None, user_external_id = k\<rparr>))
                      (filter (\<lambda>k. \<not> has_key users k) (map fst kvs))"
  using assms
proof (induction kvs arbitrary: nu0 e0)
  case Nil then show ?case by simp
next
  case (Cons kv kvs)
  obtain k o' where kv: "kv = (k, o')" by (cases kv)
  from Cons.prems(1) obtain nu1 e1 where
    st: "new_user_step tool users kv (nu0, e0) = Inr (nu1, e1)"
    and rest: "fold_raise (new_user_step tool users) kvs (nu1, e1) = Inr (nu, e)"
    by (auto split: sum.splits)
  have k0: "k \<notin> set (dict_keys nu0)" using Cons.prems(3) kv by auto
  from st kv have nu1: "nu1 = (if \<not> has_key users k
        then nu0 @ [(k, \<lparr>user_pk = None, user_external_id = k\<rparr>)] else nu0)"
    by (auto simp: new_user_step_def bind_def Let_def dict_set_absent [OF k0] split: sum.splits if_splits)
  have d: "distinct (map fst kvs)" using Cons.prems(2) by simp
  have i: "set (dict_keys nu1) \<inter> set (map fst kvs) = {}"
    using Cons.prems(2,3) kv by (auto simp: nu1 dict_keys_def)
  from Cons.IH [OF rest d i] show ?case by (simp add: nu1 kv)
qed

lemma for_each_skip: "(\<And>x s. x \<in> set xs \<Longrightarrow> f x s = (s, None)) \<Longrightarrow> for_each f xs s = (s, None)"
  by (induction xs arbitrary: s) auto

lemma fill_inventory_frame:
  "User_table (fst (fill_inventory tool users items objs st)) = User_table st
   \<and> Item_table (fst (fill_inventory tool users items objs st)) = Item_table st
   \<and> (bulk_create_log (fst (fill_inventory tool users items objs st)) = bulk_create_log st
      \<or> (\<exists>n. bulk_create_log (fst (fill_inventory tool users items objs st))
                = bulk_create_log st @ [(''Inventory'', n)]))"
  by (auto simp: fill_inventory_def log_bulk_create_def Let_def split: prod.splits option.splits)

lemma has_key_stored_users:
  "has_key (stored_users json_users st) k
     = (k \<in> set (dict_keys json_users) \<and> k \<in> set (map user_external_id (User_table st)))"
  by (auto simp: stored_users_def has_key_keys set_dict_keys_update filter_in_def)

lemma distinct_json_users: "distinct (dict_keys (json_users_of tool objs))"
  unfolding json_users_of_def by (rule distinct_dict_update) simp

lemma user_row_ext: "user_external_id (set_user_pk k r) = user_external_id r"
  by (simp add: set_user_pk_def)

text \<open>
  When the scan of the user records raises nothing, the users table grows by one row for
  each identifier of the records that no stored user has, and the first call recorded is
  the one \<^verbatim>\<open>bulk_create\<close> for users, with all these rows.
\<close>

lemma fill_db_with_users_tables:
  assumes sc: "user_scan_of tool objects st = Inr (objs, nu, eids)"
  shows "\<exists>new. User_table (fst (fill_db_with_users tool objects st)) = User_table st @ new
           \<and> map user_external_id new
               = filter (\<lambda>eid. eid \<notin> set (map user_external_id (User_table st)))
                   (dict_keys (json_users_of tool objs))
           \<and> (\<exists>rest. bulk_create_log (fst (fill_db_with_users tool objects st))
                 = bulk_create_log st @ (''User'', length new) # rest)"
proof -
  let ?ju = "json_users_of tool objs"
  let ?users = "stored_users ?ju st"
  from sc have sc': "fold_raise (new_user_step tool ?users) ?ju ([], []) = Inr (nu, eids)"
    by (auto simp: user_scan_of_def scan_user_records_def bind_def split: sum.splits)
  have nu: "nu = map (\<lambda>k. (k, \<lparr>user_pk = None, user_external_id = k\<rparr>))
                      (filter (\<lambda>k. \<not> has_key ?users k) (dict_keys ?ju))"
    using new_users_char [OF sc'] distinct_json_users [of tool objs]
    by (simp add: dict_keys_def)
  have f: "filter (\<lambda>k. \<not> has_key ?users k) (dict_keys ?ju)
             = filter (\<lambda>eid. eid \<notin> set (map user_external_id (User_table st))) (dict_keys ?ju)"
    by (rule filter_cong) (simp_all add: has_key_stored_users)
  have pkn: "\<And>r. r \<in> set (dict_values nu) \<Longrightarrow> user_pk r = None"
    by (auto simp: nu dict_values_def)
  from bulk_create_new_map [where pk_of = user_pk and set_pk = set_user_pk and g = user_external_id
      and rows = "dict_values nu" and tbl = "User_table st", OF pkn user_row_ext]
  obtain new where new: "bulk_create user_pk set_user_pk (dict_values nu) (User_table st) = User_table st @ new"
    "map user_external_id new = map user_external_id (dict_values nu)" by blast
  have ids: "map user_external_id (dict_values nu)
               = filter (\<lambda>eid. eid \<notin> set (map user_external_id (User_table st))) (dict_keys ?ju)"
  proof -
    have "map user_external_id (dict_values nu) = filter (\<lambda>k. \<not> has_key ?users k) (dict_keys ?ju)"
      by (simp add: nu dict_values_def comp_def)
    with f show ?thesis by simp
  qed
  have len: "length new = length (dict_values nu)"
    using new(2) by (metis length_map)
  define st1 where "st1 = log_bulk_create ''User'' (length (dict_values nu))
       (st\<lparr>User_table := bulk_create user_pk set_user_pk (dict_values nu) (User_table st)\<rparr>)"
  have t1: "User_table st1 = User_table st @ new"
    and l1: "bulk_create_log st1 = bulk_create_log st @ [(''User'', length new)]"
    by (simp_all add: st1_def log_bulk_create_def new(1) len)
  define users1 where "users1 = dict_update ?users user_external_id
      (filter_in user_external_id (dict_keys nu) (User_table st1))"
  define items where "items = dict_update [] item_external_id
      (filter_in item_external_id eids (Item_table st1))"
  have r: "fill_db_with_users tool objects st =
          (if length users1 \<noteq> length objs then (st1, Some AssertionError)
           else fill_inventory tool users1 items objs st1)"
    unfolding users1_def items_def st1_def
    by (simp add: fill_db_with_users_def sc Let_def)
  have "User_table (fst (fill_db_with_users tool objects st)) = User_table st1
        \<and> (\<exists>rest. bulk_create_log (fst (fill_db_with_users tool objects st)) = bulk_create_log st1 @ rest)"
  proof (cases "length users1 \<noteq> length objs")
    case True
    with r show ?thesis by simp
  next
    case False
    with r have "fill_db_with_users tool objects st = fill_inventory tool users1 items objs st1" by simp
    with fill_inventory_frame [of tool users1 items objs st1] show ?thesis by auto
  qed
  with t1 l1 new(2) ids show ?thesis by auto
qed

lemma fold_raise_new_users_ok:
  "(\<And>kv. kv \<in> set kvs \<Longrightarrow> \<exists>eids. listed_item_eids tool (snd kv) = Inr eids) \<Longrightarrow>
     \<exists>nu e. fold_raise (new_user_step tool users) kvs s = Inr (nu, e)"
proof (induction kvs arbitrary: s)
  case Nil then show ?case by (cases s) simp
next
  case (Cons kv kvs)
  obtain k o' where kv: "kv = (k, o')" by (cases kv)
  obtain nu0 e0 where s: "s = (nu0, e0)" by (cases s)
  from Cons.prems [of kv] kv obtain eids where "listed_item_eids tool o' = Inr eids" by auto
  then obtain s' where "new_user_step tool users kv s = Inr s'"
    by (simp add: new_user_step_def kv s bind_def Let_def)
  with Cons.IH [of s'] Cons.prems show ?case by auto
qed

lemma set_dict_set_values: "set (map snd (dict_set d k v)) \<subseteq> insert v (set (map snd d))"
  by (induction d k v rule: dict_set.induct) auto

lemma set_dict_update_values: "set (map snd (dict_update d key rows)) \<subseteq> set (map snd d) \<union> set rows"
  unfolding dict_update_def
proof (induction rows arbitrary: d)
  case Nil then show ?case by simp
next
  case (Cons r rows)
  from Cons.IH [of "dict_set d (key r) r"] set_dict_set_values [of d "key r" r]
  show ?case by auto
qed

lemma many_users_obj:
  assumes "obj \<in> set many_users"
  shows "has_key obj ''user''" and "str_user default_tool obj = Inr obj"
    and "listed_item_eids default_tool obj = Inr []"
    and "\<exists>n. str_field obj ''external_id'' = replicate (Suc n) CHR ''u''"
  using assms
  by (auto simp: many_users_def has_key_def str_user_def default_tool_def bind_def dict_item_def
      get_or_empty_def listed_item_eids_def str_field_def jget_def Let_def)

lemma user_objects_many: "user_objects default_tool many_users = Inr many_users"
proof -
  have f: "filter (\<lambda>obj. has_key obj (user_file_identifier_field default_tool)) many_users = many_users"
    using many_users_obj(1) by (simp add: default_tool_def)
  have "map_raise (str_user default_tool) many_users = Inr (map (\<lambda>x. x) many_users)"
    by (rule map_raise_all) (rule many_users_obj(2))
  with f show ?thesis by (simp add: user_objects_def)
qed

lemma many_users_keys:
  "map (\<lambda>obj. str_field obj ''external_id'') many_users = map (\<lambda>n. replicate (Suc n) CHR ''u'') [0..<951]"
  by (simp add: many_users_def str_field_def jget_def)

lemma many_users_distinct: "distinct (map (\<lambda>obj. str_field obj ''external_id'') many_users)"
proof -
  have "inj (\<lambda>n. replicate (Suc n) CHR ''u'')"
    by (rule injI) (metis length_replicate nat.inject)
  then have "distinct (map (\<lambda>n. replicate (Suc n) CHR ''u'') [0..<951])"
    by (simp add: distinct_map inj_on_def inj_def)
  then show ?thesis by (simp only: many_users_keys)
qed

lemma json_users_many:
  "json_users_of default_tool many_users = map (\<lambda>obj. (str_field obj ''external_id'', obj)) many_users"
proof -
  have "dict_update [] (\<lambda>obj. str_field obj ''external_id'') many_users
          = [] @ map (\<lambda>obj. (str_field obj ''external_id'', obj)) many_users"
    by (rule dict_update_fresh) (use many_users_distinct in simp_all)
  then show ?thesis by (simp add: json_users_of_def default_tool_def)
qed

text \<open>
  C4, at the failing input. The vendor is sqlite and 951 user records with distinct
  identifiers are loaded into an empty store. The first \<^verbatim>\<open>bulk_create\<close> call of
  \<^verbatim>\<open>fill_db_with_users\<close> is the one for users, and it is handed all 951 rows, more than
  \<^verbatim>\<open>SQLITE_MAX_ROWS\<close>.
\<close>

theorem fill_db_with_users_one_call:
  "vendor default_tool = ''sqlite'' \<and> SQLITE_MAX_ROWS < 951
   \<and> take 1 (bulk_create_log (fst (fill_db_with_users default_tool many_users empty_store)))
       = [(''User'', 951)]"
proof -
  let ?ju = "json_users_of default_tool many_users"
  let ?users = "stored_users ?ju empty_store"
  have "\<exists>nu e. fold_raise (new_user_step default_tool ?users) ?ju ([], []) = Inr (nu, e)"
    by (rule fold_raise_new_users_ok) (auto simp: json_users_many many_users_obj(3))
  then obtain nu e where
    sc: "user_scan_of default_tool many_users empty_store = Inr (many_users, nu, e)"
    by (auto simp: user_scan_of_def scan_user_records_def user_objects_many bind_def)
  from fill_db_with_users_tables [OF sc]
  obtain new :: "user_row list" and rest where
    n: "map user_external_id new
          = filter (\<lambda>eid. eid \<notin> set (map user_external_id (User_table empty_store))) (dict_keys ?ju)"
    and l: "bulk_create_log (fst (fill_db_with_users default_tool many_users empty_store))
          = bulk_create_log empty_store @ (''User'', length new) # rest"
    by blast
  have k: "length (dict_keys ?ju) = length many_users"
    by (simp add: json_users_many dict_keys_def)
  have m: "length many_users = 951"
    by (simp add: many_users_def)
  have "length (map user_external_id new) = 951"
    unfolding n using k m by (simp add: empty_store_def)
  then have "length new = 951" by simp
  with l show ?thesis
    by (simp add: empty_store_def default_tool_def SQLITE_MAX_ROWS_def)
qed

section \<open>Loading items\<close>


































lemma slices_Nil [simp]: "slices n [] = []"
  by (subst slices.simps) simp






section \<open>Loading the inventory\<close>

lemma find_append: "find P (xs @ ys) = (case find P xs of None \<Rightarrow> find P ys | Some x \<Rightarrow> Some x)"
  by (induction xs) auto

lemma upsert_row_new:
  "pk_of b = None \<Longrightarrow> upsert_row pk_of set_pk b T = T @ [set_pk (fresh_pk (map pk_of T)) b]"
  by (simp add: upsert_row_def)

lemma upsert_row_stored:
  "pk_of b = Some p \<Longrightarrow> Some p \<in> set (map pk_of T) \<Longrightarrow>
     upsert_row pk_of set_pk b T = map (\<lambda>s. if pk_of s = Some p then b else s) T"
  by (simp add: upsert_row_def)

text \<open>
  The table after a \<^verbatim>\<open>bulk_create\<close> of a batch whose rows either have no primary key or
  have the key of a stored row, no key twice: each stored row that shares its key with a
  row of the batch is replaced by that row, the others stay, and the rows without a key
  follow under fresh keys.
\<close>

lemma bulk_create_shape:
  assumes T: "distinct (map pk_of T)" "None \<notin> set (map pk_of T)"
    and setter: "\<And>k r. pk_of (set_pk k r) = Some k"
    and B: "\<And>b. b \<in> set B \<Longrightarrow> pk_of b = None \<or> pk_of b \<in> set (map pk_of T)"
    and D: "distinct (filter (\<lambda>p. p \<noteq> None) (map pk_of B))"
  shows "\<exists>news. bulk_create pk_of set_pk B T
            = map (\<lambda>r. case find (\<lambda>b. pk_of b = pk_of r) B of None \<Rightarrow> r | Some b \<Rightarrow> b) T @ news
          \<and> list_all2 (\<lambda>n b. \<exists>k. n = set_pk k b) news (filter (\<lambda>b. pk_of b = None) B)
          \<and> (\<forall>n \<in> set news. pk_of n \<notin> set (map pk_of T) \<and> pk_of n \<noteq> None)"
  using B D
proof (induction B rule: rev_induct)
  case Nil
  then show ?case by (simp add: bulk_create_def)
next
  case (snoc b B)
  let ?m = "\<lambda>B r. case find (\<lambda>b. pk_of b = pk_of r) B of None \<Rightarrow> r | Some b \<Rightarrow> b"
  from snoc.prems have B': "\<And>x. x \<in> set B \<Longrightarrow> pk_of x = None \<or> pk_of x \<in> set (map pk_of T)"
    and D': "distinct (filter (\<lambda>p. p \<noteq> None) (map pk_of B))"
    by auto
  from snoc.IH [OF B' D'] obtain news where
    sh: "bulk_create pk_of set_pk B T = map (?m B) T @ news"
    and nw: "list_all2 (\<lambda>n b. \<exists>k. n = set_pk k b) news (filter (\<lambda>b. pk_of b = None) B)"
    and fr: "\<forall>n \<in> set news. pk_of n \<notin> set (map pk_of T) \<and> pk_of n \<noteq> None"
    by blast
  have pkm: "\<And>r. r \<in> set T \<Longrightarrow> pk_of (?m B r) = pk_of r"
    by (auto split: option.splits dest: find_Some_iff [THEN iffD1])
  have pks: "map pk_of (map (?m B) T) = map pk_of T"
    using pkm by (induction T) auto
  have step: "bulk_create pk_of set_pk (B @ [b]) T = upsert_row pk_of set_pk b (map (?m B) T @ news)"
    using sh by (simp add: bulk_create_def)
  show ?case
  proof (cases "pk_of b")
    case None
    have m: "map (?m (B @ [b])) T = map (?m B) T"
    proof (rule map_cong [OF refl])
      fix r assume "r \<in> set T"
      with T(2) have "pk_of r \<noteq> None" by (metis image_eqI list.set_map)
      with None show "?m (B @ [b]) r = ?m B r"
        by (auto simp: find_append split: option.splits)
    qed
    let ?n = "set_pk (fresh_pk (map pk_of (map (?m B) T @ news))) b"
    have all: "map pk_of (map (?m B) T @ news) = map pk_of T @ map pk_of news"
      using pks by (simp only: map_append)
    have fresh: "pk_of ?n \<notin> set (map pk_of T)"
    proof
      assume a: "pk_of ?n \<in> set (map pk_of T)"
      have "pk_of ?n = Some (fresh_pk (map pk_of (map (?m B) T @ news)))" by (rule setter)
      with a have "Some (fresh_pk (map pk_of (map (?m B) T @ news))) \<in> set (map pk_of T)" by simp
      then have "Some (fresh_pk (map pk_of (map (?m B) T @ news)))
                   \<in> set (map pk_of (map (?m B) T @ news))"
        unfolding all by simp
      from fresh_pk_gt [OF this] show False by simp
    qed
    have e1: "bulk_create pk_of set_pk (B @ [b]) T = map (?m (B @ [b])) T @ (news @ [?n])"
      unfolding step m
      using upsert_row_new [where pk_of = pk_of and b = b and set_pk = set_pk
          and T = "map (?m B) T @ news", OF None]
      by simp
    have e2: "list_all2 (\<lambda>n b. \<exists>k. n = set_pk k b) (news @ [?n])
                (filter (\<lambda>b. pk_of b = None) (B @ [b]))"
      using nw None by (auto intro!: list_all2_appendI)
    have "pk_of ?n \<noteq> None" by (simp only: setter) simp
    with fr fresh have e3: "\<forall>n \<in> set (news @ [?n]). pk_of n \<notin> set (map pk_of T) \<and> pk_of n \<noteq> None"
      by auto
    from e1 e2 e3 show ?thesis by (intro exI [of _ "news @ [?n]"] conjI)
  next
    case (Some p)
    with snoc.prems(1) [of b] have pT: "Some p \<in> set (map pk_of T)" by auto
    have pB: "Some p \<notin> set (map pk_of B)"
      using snoc.prems(2) Some by (auto simp: distinct_map)
    have pB': "\<And>x. x \<in> set B \<Longrightarrow> pk_of x \<noteq> Some p"
      using pB by force
    have mB: "\<And>r. r \<in> set T \<Longrightarrow> pk_of r = Some p \<Longrightarrow> ?m B r = r"
    proof -
      fix r assume "r \<in> set T" "pk_of r = Some p"
      with pB' have "find (\<lambda>b. pk_of b = pk_of r) B = None"
        by (auto simp: find_None_iff)
      then show "?m B r = r" by simp
    qed
    have "Some p \<in> set (map pk_of (map (?m B) T @ news))"
      using pT pks by (simp only: map_append set_append) simp
    then have u: "upsert_row pk_of set_pk b (map (?m B) T @ news)
               = map (\<lambda>s. if pk_of s = Some p then b else s) (map (?m B) T @ news)"
      using upsert_row_stored [where pk_of = pk_of and b = b and p = p and set_pk = set_pk
          and T = "map (?m B) T @ news", OF Some] by simp
    have n: "map (\<lambda>s. if pk_of s = Some p then b else s) news = news"
      using fr pT by (intro map_idI) auto
    have m1: "(if pk_of (?m B r) = Some p then b else ?m B r) = ?m (B @ [b]) r" if r: "r \<in> set T" for r
    proof (cases "pk_of r = Some p")
      case True
      with pB' have "find (\<lambda>b. pk_of b = pk_of r) B = None" by (auto simp: find_None_iff)
      with True Some pkm [OF r] show ?thesis by (simp add: find_append)
    next
      case False
      with Some pkm [OF r] show ?thesis by (auto simp: find_append split: option.splits)
    qed
    have m: "map (\<lambda>s. if pk_of s = Some p then b else s) (map (?m B) T) = map (?m (B @ [b])) T"
      unfolding map_map comp_def by (rule map_cong [OF refl]) (rule m1)
    have e1: "bulk_create pk_of set_pk (B @ [b]) T = map (?m (B @ [b])) T @ news"
      unfolding step u by (simp only: map_append n m)
    have e2: "list_all2 (\<lambda>n b. \<exists>k. n = set_pk k b) news (filter (\<lambda>b. pk_of b = None) (B @ [b]))"
      using nw Some by simp
    from e1 e2 fr show ?thesis by (intro exI [of _ news] conjI)
  qed
qed

lemma dict_update_Cons: "dict_update d key (r # rows) = dict_update (dict_set d (key r) r) key rows"
  by (simp add: dict_update_def)

lemma dict_update_Nil [simp]: "dict_update d key [] = d"
  by (simp add: dict_update_def)

lemma dict_update_append: "dict_update d key (xs @ ys) = dict_update (dict_update d key xs) key ys"
  by (simp add: dict_update_def)

lemma map_of_dict_update:
  "map_of (dict_update d key rows) k
     = (case filter (\<lambda>r. key r = k) rows of [] \<Rightarrow> map_of d k | x # xs \<Rightarrow> Some (last (x # xs)))"
proof (induction rows arbitrary: d)
  case Nil then show ?case by simp
next
  case (Cons r rows)
  show ?case
    by (simp add: dict_update_Cons Cons.IH map_of_dict_set split: list.splits)
qed

text \<open>The scan of one user's listings, when it raises nothing.\<close>

lemma scan_items_ok:
  assumes "for_each (scan_item tool users items ju) js s0 = (s, None)"
  shows "s = s0\<lparr>msgs := msgs s0 @ concat (map (\<lambda>j. case inventory_entry tool users items ju j of
                                                      Inr (Inl msg) \<Rightarrow> [msg] | _ \<Rightarrow> []) js),
               query_inventory := query_inventory s0
                  @ map inventory_key_of (concat (map (\<lambda>j. case inventory_entry tool users items ju j of
                                                      Inr (Inr r) \<Rightarrow> [r] | _ \<Rightarrow> []) js)),
               inventory := dict_update (inventory s0) inventory_key_of
                  (concat (map (\<lambda>j. case inventory_entry tool users items ju j of
                                                      Inr (Inr r) \<Rightarrow> [r] | _ \<Rightarrow> []) js))\<rparr>"
  using assms
proof (induction js arbitrary: s0)
  case Nil then show ?case by simp
next
  case (Cons j js)
  from Cons.prems obtain s1 where
    st: "scan_item tool users items ju j s0 = (s1, None)"
    and rest: "for_each (scan_item tool users items ju) js s1 = (s, None)"
    by (auto split: prod.splits option.splits)
  show ?case
  proof (cases "inventory_entry tool users items ju j")
    case (Inl e)
    with st show ?thesis by (simp add: scan_item_def)
  next
    case (Inr w)
    show ?thesis
    proof (cases w)
      case (Inl msg)
      with Inr st have "s1 = s0\<lparr>msgs := msgs s0 @ [msg]\<rparr>" by (simp add: scan_item_def)
      with Cons.IH [OF rest] Inr Inl show ?thesis by simp
    next
      case (Inr r)
      with \<open>inventory_entry tool users items ju j = Inr w\<close> st
      have "s1 = s0\<lparr>query_inventory := query_inventory s0 @ [inventory_key_of r],
                    inventory := dict_set (inventory s0) (inventory_key_of r) r\<rparr>"
        by (simp add: scan_item_def)
      with Cons.IH [OF rest] Inr \<open>inventory_entry tool users items ju j = Inr w\<close>
      show ?thesis by (simp add: dict_update_Cons)
    qed
  qed
qed

lemma scan_users_ok:
  assumes "for_each (scan_user tool users items) objects s0 = (s, None)"
  shows "s = s0\<lparr>msgs := msgs s0 @ listed_warnings tool users items objects,
               query_inventory := query_inventory s0
                  @ map inventory_key_of (listed_entries tool users items objects),
               inventory := dict_update (inventory s0) inventory_key_of
                  (listed_entries tool users items objects)\<rparr>"
  using assms
proof (induction objects arbitrary: s0)
  case Nil then show ?case by (simp add: listed_entries_def listed_warnings_def)
next
  case (Cons ju objects)
  from Cons.prems obtain s1 where
    st: "scan_user tool users items ju s0 = (s1, None)"
    and rest: "for_each (scan_user tool users items) objects s1 = (s, None)"
    by (auto split: prod.splits option.splits)
  from st obtain js where js: "py_iter (get_or_empty ju (user_items_field tool)) = Inr js"
    and f: "for_each (scan_item tool users items ju) js s0 = (s1, None)"
    by (auto simp: scan_user_def split: sum.splits)
  from scan_items_ok [OF f] js
  have s1: "s1 = s0\<lparr>msgs := msgs s0 @ warnings_of_user tool users items ju,
               query_inventory := query_inventory s0
                  @ map inventory_key_of (entries_of_user tool users items ju),
               inventory := dict_update (inventory s0) inventory_key_of
                  (entries_of_user tool users items ju)\<rparr>"
    by (simp add: entries_of_user_def warnings_of_user_def)
  from Cons.IH [OF rest] show ?case
    by (simp add: s1 listed_entries_def listed_warnings_def dict_update_append)
qed

lemma scan_inventory_ok:
  assumes "scan_inventory tool users items objects = (s, None)"
  shows "s = \<lparr>msgs = listed_warnings tool users items objects,
              query_inventory = map inventory_key_of (listed_entries tool users items objects),
              inventory = dict_update [] inventory_key_of (listed_entries tool users items objects)\<rparr>"
  using scan_users_ok [OF assms [unfolded scan_inventory_def]] by simp

text \<open>Every object the scan builds is new: it has no primary key.\<close>

lemma inventory_entry_new:
  "inventory_entry tool users items ju j = Inr (Inr r) \<Longrightarrow> inventory_pk r = None"
  by (auto simp: inventory_entry_def bind_def split: sum.splits if_splits)

lemma listed_entries_new: "r \<in> set (listed_entries tool users items objects) \<Longrightarrow> inventory_pk r = None"
  by (auto simp: listed_entries_def entries_of_user_def inventory_entry_new split: sum.splits)

lemma map_of_dict_del: "map_of (dict_del d k) = (map_of d)(k := None)"
  by (induction d) (auto simp: dict_del_def fun_eq_iff)

lemma set_dict_set: "set (dict_set d k v) \<subseteq> insert (k, v) (set d)"
  by (induction d k v rule: dict_set.induct) auto

lemma set_dict_del: "set (dict_del d k) \<subseteq> set d"
  by (auto simp: dict_del_def)

lemma distinct_dict_del: "distinct (dict_keys d) \<Longrightarrow> distinct (dict_keys (dict_del d k))"
  by (simp add: dict_del_def dict_keys_def distinct_map_filter)

lemma key_with_dates [simp]: "inventory_key_of (with_dates r v) = inventory_key_of r"
  by (simp add: with_dates_def inventory_key_of_def)

lemma pk_with_dates [simp]: "inventory_pk (with_dates r v) = inventory_pk r"
  by (simp add: with_dates_def)


lemma dedupe_step_eq:
  "dedupe_step r d =
     (case map_of d (inventory_key_of r) of
        None \<Rightarrow> d
      | Some t \<Rightarrow> if same_dates r t then dict_del d (inventory_key_of r)
                  else dict_set d (inventory_key_of r) (with_dates r t))"
  by (auto simp: dedupe_step_def same_dates_def with_dates_def split: option.splits)

lemma dedupe_step_map_of:
  "map_of (dedupe_step r d) k =
     (if k = inventory_key_of r
      then (case map_of d k of None \<Rightarrow> None
            | Some t \<Rightarrow> if same_dates r t then None else Some (with_dates r t))
      else map_of d k)"
  by (simp add: dedupe_step_eq map_of_dict_set map_of_dict_del split: option.splits)

lemma dedupe_step_inv:
  assumes "r \<in> set T" and "batch_inv T d"
  shows "batch_inv T (dedupe_step r d)"
proof (cases "map_of d (inventory_key_of r)")
  case None
  with assms(2) show ?thesis by (simp add: dedupe_step_eq)
next
  case (Some t)
  show ?thesis
  proof (cases "same_dates r t")
    case True
    with Some have "dedupe_step r d = dict_del d (inventory_key_of r)" by (simp add: dedupe_step_eq)
    with assms(2) set_dict_del [of d "inventory_key_of r"] show ?thesis
      by (auto simp: batch_inv_def distinct_dict_del)
  next
    case False
    with Some have e: "dedupe_step r d = dict_set d (inventory_key_of r) (with_dates r t)"
      by (simp add: dedupe_step_eq)
    have "\<forall>kv \<in> set (dict_set d (inventory_key_of r) (with_dates r t)).
            inventory_key_of (snd kv) = fst kv
            \<and> (inventory_pk (snd kv) = None
                \<or> (\<exists>r \<in> set T. inventory_pk (snd kv) = inventory_pk r \<and> inventory_key_of r = fst kv))"
    proof
      fix kv assume "kv \<in> set (dict_set d (inventory_key_of r) (with_dates r t))"
      with set_dict_set [of d "inventory_key_of r" "with_dates r t"]
      have "kv = (inventory_key_of r, with_dates r t) \<or> kv \<in> set d" by auto
      then show "inventory_key_of (snd kv) = fst kv
            \<and> (inventory_pk (snd kv) = None
                \<or> (\<exists>r \<in> set T. inventory_pk (snd kv) = inventory_pk r \<and> inventory_key_of r = fst kv))"
      proof
        assume "kv = (inventory_key_of r, with_dates r t)"
        with assms(1) show ?thesis by auto
      next
        assume "kv \<in> set d"
        with assms(2) show ?thesis by (simp add: batch_inv_def)
      qed
    qed
    with assms(2) show ?thesis
      by (simp add: e batch_inv_def distinct_dict_set)
  qed
qed

lemma dedupe_fold_inv:
  "set rows \<subseteq> set T \<Longrightarrow> batch_inv T d \<Longrightarrow> batch_inv T (fold dedupe_step rows d)"
  by (induction rows arbitrary: d) (auto simp: dedupe_step_inv)




text \<open>With one stored row per pair, the second loop treats each pair once.\<close>

lemma dedupe_fold_distinct:
  assumes "distinct (map inventory_key_of rows)"
  shows "map_of (fold dedupe_step rows d) k =
     (case find (\<lambda>r. inventory_key_of r = k) rows of
        None \<Rightarrow> map_of d k
      | Some r \<Rightarrow> (case map_of d k of None \<Rightarrow> None
                   | Some t \<Rightarrow> if same_dates r t then None else Some (with_dates r t)))"
  using assms
proof (induction rows arbitrary: d)
  case Nil then show ?case by simp
next
  case (Cons r rows)
  from Cons.prems have d: "distinct (map inventory_key_of rows)"
    and n: "inventory_key_of r \<notin> set (map inventory_key_of rows)" by auto
  show ?case
  proof (cases "inventory_key_of r = k")
    case True
    have "\<And>x. x \<in> set rows \<Longrightarrow> inventory_key_of x \<noteq> inventory_key_of r"
      using n by (metis image_eqI list.set_map)
    with True have "find (\<lambda>r. inventory_key_of r = k) rows = None"
      by (auto simp: find_None_iff)
    with Cons.IH [OF d, of "dedupe_step r d"] True show ?thesis
      by (simp add: dedupe_step_map_of)
  next
    case False
    then have "k \<noteq> inventory_key_of r" by auto
    then have e: "map_of (dedupe_step r d) k = map_of d k"
      by (simp add: dedupe_step_map_of)
    from Cons.IH [OF d, of "dedupe_step r d", unfolded e] False show ?thesis
      by simp
  qed
qed

lemma dict_update_keyed:
  assumes "\<forall>kv \<in> set d. key (snd kv) = fst kv \<and> P (snd kv)" and "\<forall>r \<in> set rows. P r"
  shows "\<forall>kv \<in> set (dict_update d key rows). key (snd kv) = fst kv \<and> P (snd kv)"
  using assms
proof (induction rows arbitrary: d)
  case Nil then show ?case by simp
next
  case (Cons r rows)
  have "\<forall>kv \<in> set (dict_set d (key r) r). key (snd kv) = fst kv \<and> P (snd kv)"
  proof
    fix kv assume "kv \<in> set (dict_set d (key r) r)"
    with set_dict_set [of d "key r" r] have "kv = (key r, r) \<or> kv \<in> set d" by auto
    with Cons.prems show "key (snd kv) = fst kv \<and> P (snd kv)" by auto
  qed
  with Cons.IH [of "dict_set d (key r) r"] Cons.prems(2) show ?case
    by (simp add: dict_update_Cons)
qed

lemma batch_inv_scan:
  assumes "\<forall>e \<in> set es. inventory_pk e = None"
  shows "batch_inv T (dict_update [] inventory_key_of es)"
proof -
  have "\<forall>kv \<in> set (dict_update [] inventory_key_of es).
          inventory_key_of (snd kv) = fst kv \<and> inventory_pk (snd kv) = None"
    by (rule dict_update_keyed) (use assms in simp_all)
  moreover have "distinct (dict_keys (dict_update [] inventory_key_of es))"
    by (rule distinct_dict_update) simp
  ultimately show ?thesis by (simp add: batch_inv_def)
qed

lemma filter_Q_subset: "set (filter_Q f q T) \<subseteq> set T"
  by (simp add: filter_Q_def)

lemma pk_unique:
  "inventory_pks_ok T \<Longrightarrow> r \<in> set T \<Longrightarrow> r' \<in> set T \<Longrightarrow> inventory_pk r = inventory_pk r' \<Longrightarrow> r = r'"
  by (auto simp: inventory_pks_ok_def distinct_map inj_on_def)

lemma pk_not_None: "inventory_pks_ok T \<Longrightarrow> r \<in> set T \<Longrightarrow> inventory_pk r \<noteq> None"
  by (metis image_eqI inventory_pks_ok_def list.set_map)

lemma map_of_entry: "distinct (dict_keys d) \<Longrightarrow> (k, v) \<in> set d \<Longrightarrow> map_of d k = Some v"
  by (simp add: dict_keys_def)

text \<open>In the dictionary a primary key occurs once.\<close>

lemma batch_pk_unique:
  assumes ok: "inventory_pks_ok T" and inv: "batch_inv T d"
    and 1: "kv1 \<in> set d" and 2: "kv2 \<in> set d"
    and eq: "inventory_pk (snd kv1) = inventory_pk (snd kv2)" and nn: "inventory_pk (snd kv1) \<noteq> None"
  shows "kv1 = kv2"
proof -
  from inv 1 nn obtain r1 where r1: "r1 \<in> set T" "inventory_pk (snd kv1) = inventory_pk r1"
    "inventory_key_of r1 = fst kv1" by (auto simp: batch_inv_def)
  from inv 2 nn eq obtain r2 where r2: "r2 \<in> set T" "inventory_pk (snd kv2) = inventory_pk r2"
    "inventory_key_of r2 = fst kv2" by (auto simp: batch_inv_def)
  from pk_unique [OF ok r1(1) r2(1)] r1(2) r2(2) eq have "r1 = r2" by simp
  with r1(3) r2(3) have k: "fst kv1 = fst kv2" by simp
  from inv have dk: "distinct (dict_keys d)" by (simp add: batch_inv_def)
  from map_of_entry [OF dk, of "fst kv1" "snd kv1"] 1 have "map_of d (fst kv1) = Some (snd kv1)" by simp
  moreover from map_of_entry [OF dk, of "fst kv2" "snd kv2"] 2 have "map_of d (fst kv2) = Some (snd kv2)" by simp
  ultimately have "snd kv1 = snd kv2" using k by simp
  with k show ?thesis by (simp add: prod_eq_iff)
qed

lemma batch_pks_distinct:
  assumes ok: "inventory_pks_ok T" and inv: "batch_inv T d"
  shows "distinct (filter (\<lambda>p. p \<noteq> None) (map inventory_pk (dict_values d)))"
proof -
  have e: "filter (\<lambda>p. p \<noteq> None) (map inventory_pk (dict_values d))
         = map (\<lambda>kv. inventory_pk (snd kv)) (filter (\<lambda>kv. inventory_pk (snd kv) \<noteq> None) d)"
    by (simp add: dict_values_def filter_map comp_def)
  from inv have "distinct (map fst d)" by (simp add: batch_inv_def dict_keys_def)
  then have "distinct d" by (simp add: distinct_map)
  then have dd: "distinct (filter (\<lambda>kv. inventory_pk (snd kv) \<noteq> None) d)" by simp
  have "inj_on (\<lambda>kv. inventory_pk (snd kv)) (set (filter (\<lambda>kv. inventory_pk (snd kv) \<noteq> None) d))"
    by (rule inj_onI) (use batch_pk_unique [OF ok inv] in auto)
  with dd show ?thesis unfolding e by (simp add: distinct_map)
qed

lemma batch_pks_stored:
  assumes "batch_inv T d" and "b \<in> set (dict_values d)"
  shows "inventory_pk b = None \<or> inventory_pk b \<in> set (map inventory_pk T)"
  using assms by (auto simp: batch_inv_def dict_values_def)

lemma inventory_setter: "inventory_pk (set_inventory_pk k r) = Some k"
  by (simp add: set_inventory_pk_def)

text \<open>
  The shape of the inventory table after the \<^verbatim>\<open>bulk_create\<close> of a batch that the
  second loop leaves.
\<close>

lemma inventory_bulk_shape:
  assumes ok: "inventory_pks_ok T" and inv: "batch_inv T d"
  shows "\<exists>news. bulk_create inventory_pk set_inventory_pk (dict_values d) T
            = map (\<lambda>r. case find (\<lambda>b. inventory_pk b = inventory_pk r) (dict_values d) of
                          None \<Rightarrow> r | Some b \<Rightarrow> b) T @ news
          \<and> list_all2 (\<lambda>n b. \<exists>k. n = set_inventory_pk k b) news
               (filter (\<lambda>b. inventory_pk b = None) (dict_values d))"
proof -
  from ok have T: "distinct (map inventory_pk T)" "None \<notin> set (map inventory_pk T)"
    by (simp_all add: inventory_pks_ok_def)
  from bulk_create_shape [where pk_of = inventory_pk and set_pk = set_inventory_pk
      and B = "dict_values d" and T = T, OF T inventory_setter batch_pks_stored [OF inv]
      batch_pks_distinct [OF ok inv]]
  show ?thesis by blast
qed

lemma key_set_pk [simp]: "inventory_key_of (set_inventory_pk k r) = inventory_key_of r"
  by (simp add: set_inventory_pk_def inventory_key_of_def)

lemma dates_set_pk [simp]: "same_dates (set_inventory_pk k r) v = same_dates r v"
  by (simp add: set_inventory_pk_def same_dates_def)

lemma list_all2_in_right:
  "list_all2 R xs ys \<Longrightarrow> y \<in> set ys \<Longrightarrow> \<exists>x \<in> set xs. R x y"
  by (induction rule: list_all2_induct) auto

lemma list_all2_in_left:
  "list_all2 R xs ys \<Longrightarrow> x \<in> set xs \<Longrightarrow> \<exists>y \<in> set ys. R x y"
  by (induction rule: list_all2_induct) auto

lemma find_pk_batch:
  assumes ok: "inventory_pks_ok T" and inv: "batch_inv T d" and r: "r \<in> set T"
    and f: "find (\<lambda>b. inventory_pk b = inventory_pk r) (dict_values d) = Some b"
  shows "(inventory_key_of r, b) \<in> set d"
proof -
  from f have b: "b \<in> set (dict_values d)" "inventory_pk b = inventory_pk r"
    by (auto simp: find_Some_iff)
  then obtain k where kv: "(k, b) \<in> set d" by (auto simp: dict_values_def)
  from pk_not_None [OF ok r] b(2) have "inventory_pk b \<noteq> None" by simp
  with inv kv obtain r' where r': "r' \<in> set T" "inventory_pk b = inventory_pk r'" "inventory_key_of r' = k"
    by (auto simp: batch_inv_def)
  from pk_unique [OF ok r r'(1)] b(2) r'(2) have "r = r'" by simp
  with r'(3) kv show ?thesis by simp
qed

text \<open>
  The inventory table after the \<^verbatim>\<open>bulk_create\<close>: a stored row whose pair has no entry
  in the dictionary stays as it is; an entry that carries a primary key is in the table; an
  entry without one is in the table under some key; and the rows of a pair are as many as
  before unless the dictionary holds a new object for the pair.
\<close>

lemma table_after:
  assumes ok: "inventory_pks_ok T" and inv: "batch_inv T d"
  defines "T' \<equiv> bulk_create inventory_pk set_inventory_pk (dict_values d) T"
  shows stays: "\<And>r. r \<in> set T \<Longrightarrow> map_of d (inventory_key_of r) = None \<Longrightarrow> r \<in> set T'"
    and stored: "\<And>k v. map_of d k = Some v \<Longrightarrow> inventory_pk v \<noteq> None \<Longrightarrow> v \<in> set T'"
    and fresh: "\<And>k v. map_of d k = Some v \<Longrightarrow> inventory_pk v = None
                  \<Longrightarrow> \<exists>n. set_inventory_pk n v \<in> set T'"
    and count: "\<And>k. (\<And>v. map_of d k = Some v \<Longrightarrow> inventory_pk v \<noteq> None)
                  \<Longrightarrow> length (filter (\<lambda>x. inventory_key_of x = k) T')
                      = length (filter (\<lambda>x. inventory_key_of x = k) T)"
proof -
  let ?B = "dict_values d"
  let ?m = "\<lambda>r. case find (\<lambda>b. inventory_pk b = inventory_pk r) ?B of None \<Rightarrow> r | Some b \<Rightarrow> b"
  from inventory_bulk_shape [OF ok inv] obtain news where
    sh: "T' = map ?m T @ news"
    and nw: "list_all2 (\<lambda>n b. \<exists>k. n = set_inventory_pk k b) news (filter (\<lambda>b. inventory_pk b = None) ?B)"
    unfolding T'_def by (elim exE conjE)
  from inv have dk: "distinct (dict_keys d)"
    and keyed: "\<And>kv. kv \<in> set d \<Longrightarrow> inventory_key_of (snd kv) = fst kv"
    by (auto simp: batch_inv_def)
  show "r \<in> set T'" if r: "r \<in> set T" and n: "map_of d (inventory_key_of r) = None" for r
  proof (cases "find (\<lambda>b. inventory_pk b = inventory_pk r) ?B")
    case None
    then have e: "?m r = r" by simp
    from r have "?m r \<in> set (map ?m T)" by (simp only: set_map) (rule imageI)
    with e show ?thesis unfolding sh by simp
  next
    case (Some b)
    from map_of_entry [OF dk find_pk_batch [OF ok inv r Some]] n show ?thesis by simp
  qed
  show "v \<in> set T'" if kv: "map_of d k = Some v" and pk: "inventory_pk v \<noteq> None" for k v
  proof -
    from kv have mem: "(k, v) \<in> set d" by (rule map_of_SomeD)
    with inv pk obtain r where r: "r \<in> set T" "inventory_pk v = inventory_pk r" "inventory_key_of r = k"
      by (auto simp: batch_inv_def)
    from mem have "v \<in> set ?B" by (force simp: dict_values_def)
    with r(2) have "find (\<lambda>b. inventory_pk b = inventory_pk r) ?B \<noteq> None"
      by (auto simp: find_None_iff)
    then obtain b where f: "find (\<lambda>b. inventory_pk b = inventory_pk r) ?B = Some b" by auto
    from find_pk_batch [OF ok inv r(1) f] r(3) have "(k, b) \<in> set d" by simp
    from map_of_entry [OF dk this] kv have "b = v" by simp
    with f have e: "?m r = v" by simp
    from r(1) have "?m r \<in> set (map ?m T)" by (simp only: set_map) (rule imageI)
    with e show ?thesis unfolding sh by simp
  qed
  show "\<exists>n. set_inventory_pk n v \<in> set T'" if kv: "map_of d k = Some v" and pk: "inventory_pk v = None" for k v
  proof -
    from kv have "(k, v) \<in> set d" by (rule map_of_SomeD)
    then have "v \<in> set ?B" by (force simp: dict_values_def)
    with pk have "v \<in> set (filter (\<lambda>b. inventory_pk b = None) ?B)" by simp
    from list_all2_in_right [OF nw this] obtain n j where "n \<in> set news" "n = set_inventory_pk j v"
      by (elim bexE exE)
    then have "set_inventory_pk j v \<in> set T'" unfolding sh by simp
    then show ?thesis by (rule exI)
  qed
  show "length (filter (\<lambda>x. inventory_key_of x = k) T') = length (filter (\<lambda>x. inventory_key_of x = k) T)"
    if nonew: "\<And>v. map_of d k = Some v \<Longrightarrow> inventory_pk v \<noteq> None" for k
  proof -
    have km: "inventory_key_of (?m r) = inventory_key_of r" if r: "r \<in> set T" for r
    proof (cases "find (\<lambda>b. inventory_pk b = inventory_pk r) ?B")
      case None then show ?thesis by simp
    next
      case (Some b)
      from keyed [OF find_pk_batch [OF ok inv r Some]] Some show ?thesis by simp
    qed
    have "filter (\<lambda>x. inventory_key_of x = k) (map ?m T)
            = map ?m (filter (\<lambda>r. inventory_key_of (?m r) = k) T)"
      by (simp add: filter_map comp_def)
    also have "filter (\<lambda>r. inventory_key_of (?m r) = k) T = filter (\<lambda>r. inventory_key_of r = k) T"
      by (rule filter_cong) (simp_all add: km)
    finally have a: "length (filter (\<lambda>x. inventory_key_of x = k) (map ?m T))
                       = length (filter (\<lambda>r. inventory_key_of r = k) T)" by simp
    have "inventory_key_of n \<noteq> k" if n: "n \<in> set news" for n
    proof
      assume e: "inventory_key_of n = k"
      from list_all2_in_left [OF nw n] obtain b j where
        b0: "b \<in> set (filter (\<lambda>b. inventory_pk b = None) ?B)" "n = set_inventory_pk j b"
        by (elim bexE exE)
      then have b: "b \<in> set ?B" "inventory_pk b = None" "n = set_inventory_pk j b" by simp_all
      from b(1) obtain k' where kv: "(k', b) \<in> set d" by (auto simp: dict_values_def)
      from keyed [OF kv] b(3) e have "k' = k" by simp
      with map_of_entry [OF dk kv] have "map_of d k = Some b" by simp
      from nonew [OF this] b(2) show False by simp
    qed
    then have "filter (\<lambda>x. inventory_key_of x = k) news = []" by (simp add: filter_empty_conv)
    with a show ?thesis unfolding sh by simp
  qed
qed

lemma scan_inventory_fields:
  assumes "scan_inventory tool users items objects = (s, None)"
  shows "inventory s = dict_update [] inventory_key_of (listed_entries tool users items objects)"
    and "query_inventory s = map inventory_key_of (listed_entries tool users items objects)"
    and "msgs s = listed_warnings tool users items objects"
  using scan_inventory_ok [OF assms] by simp_all

lemma incoming_scan:
  "scan_inventory tool users items objects = (s, None) \<Longrightarrow>
     map_of (inventory s) k = incoming tool users items objects k"
  by (simp add: scan_inventory_fields incoming_def map_of_dict_update split: list.splits)

lemma incoming_key:
  "incoming tool users items objects k = Some v \<Longrightarrow>
     inventory_key_of v = k \<and> v \<in> set (listed_entries tool users items objects)"
proof -
  assume a: "incoming tool users items objects k = Some v"
  let ?f = "filter (\<lambda>e. inventory_key_of e = k) (listed_entries tool users items objects)"
  from a have ne: "?f \<noteq> []" and v: "v = last ?f"
    by (auto simp: incoming_def split: list.splits)
  from last_in_set [OF ne] v have "v \<in> set ?f" by simp
  then show ?thesis by simp
qed


text \<open>The dictionary after the second loop, and the table after the call, for a scan that raised nothing.\<close>

lemma fill_inventory_ok:
  assumes scan: "scan_inventory tool users items objects = (s, None)"
  shows "Inventory_table (fst (fill_inventory tool users items objects st))
           = bulk_create inventory_pk set_inventory_pk (dict_values (deduped s (Inventory_table st)))
               (Inventory_table st)"
    and "snd (fill_inventory tool users items objects st) = None"
    and "warnings (fst (fill_inventory tool users items objects st))
           = warnings st @ listed_warnings tool users items objects"
    and "batch_inv (Inventory_table st) (deduped s (Inventory_table st))"
proof -
  show "Inventory_table (fst (fill_inventory tool users items objects st))
           = bulk_create inventory_pk set_inventory_pk (dict_values (deduped s (Inventory_table st)))
               (Inventory_table st)"
    by (simp add: fill_inventory_def scan Let_def log_bulk_create_def inventory_batch_def)
  show "snd (fill_inventory tool users items objects st) = None"
    by (simp add: fill_inventory_def scan Let_def)
  show "warnings (fst (fill_inventory tool users items objects st))
           = warnings st @ listed_warnings tool users items objects"
    by (simp add: fill_inventory_def scan Let_def log_bulk_create_def scan_inventory_fields [OF scan])
  have "batch_inv (Inventory_table st) (inventory s)"
    using batch_inv_scan [of "listed_entries tool users items objects"] listed_entries_new
    by (simp add: scan_inventory_fields [OF scan])
  then show "batch_inv (Inventory_table st) (deduped s (Inventory_table st))"
    unfolding deduped_def by (intro dedupe_fold_inv filter_Q_subset)
qed

lemma scan_query_keys:
  "scan_inventory tool users items objects = (s, None) \<Longrightarrow>
     set (query_inventory s) = set (dict_keys (inventory s))"
  by (simp add: scan_inventory_fields set_dict_keys_update)

lemma map_of_keys: "map_of d k = Some v \<Longrightarrow> k \<in> set (dict_keys d)"
  by (metis dict_keys_def map_of_eq_None_iff option.distinct(1) list.set_map)

lemma find_distinct_key:
  "distinct (map f xs) \<Longrightarrow> x \<in> set xs \<Longrightarrow> find (\<lambda>y. f y = f x) xs = Some x"
proof (induction xs)
  case Nil then show ?case by simp
next
  case (Cons a xs)
  show ?case
  proof (cases "a = x")
    case True then show ?thesis by simp
  next
    case False
    with Cons.prems have x: "x \<in> set xs" by simp
    with Cons.prems have "f a \<noteq> f x" by (metis distinct.simps(2) image_eqI list.set_map list.simps(9))
    with Cons.IH x Cons.prems show ?thesis by simp
  qed
qed

lemma filter_distinct_key:
  "distinct (map f xs) \<Longrightarrow> x \<in> set xs \<Longrightarrow> filter (\<lambda>y. f y = f x) xs = [x]"
proof (induction xs)
  case Nil then show ?case by simp
next
  case (Cons a xs)
  from Cons.prems have an: "f a \<notin> set (map f xs)" and d: "distinct (map f xs)" by simp_all
  show ?case
  proof (cases "a = x")
    case True
    have "filter (\<lambda>y. f y = f x) xs = []"
      unfolding filter_empty_conv using an True by (metis image_eqI list.set_map)
    with True show ?thesis by simp
  next
    case False
    with Cons.prems have x: "x \<in> set xs" by simp
    with an have "f a \<noteq> f x" by (metis image_eqI list.set_map)
    with Cons.IH [OF d x] show ?thesis by simp
  qed
qed

lemma filter_fst_distinct:
  "distinct (map fst d) \<Longrightarrow>
     filter (\<lambda>kv. fst kv = k) d = (case map_of d k of None \<Rightarrow> [] | Some x \<Rightarrow> [(k, x)])"
proof (induction d)
  case Nil then show ?case by simp
next
  case (Cons a d)
  obtain k' x' where a: "a = (k', x')" by (cases a)
  from Cons.prems a have n: "k' \<notin> set (map fst d)" and dd: "distinct (map fst d)" by simp_all
  show ?case
  proof (cases "k' = k")
    case True
    with n have "map_of d k = None" by (simp add: map_of_eq_None_iff)
    with Cons.IH [OF dd] True a show ?thesis by simp
  next
    case False
    with Cons.IH [OF dd] a show ?thesis by simp
  qed
qed

text \<open>The rows of the batch for a pair: the entry of the dictionary for it, if there is one.\<close>

lemma batch_rows_of_pair:
  assumes "batch_inv T d"
  shows "filter (\<lambda>b. inventory_key_of b = k) (dict_values d)
           = (case map_of d k of None \<Rightarrow> [] | Some x \<Rightarrow> [x])"
proof -
  from assms have dk: "distinct (map fst d)"
    and keyed: "\<And>kv. kv \<in> set d \<Longrightarrow> inventory_key_of (snd kv) = fst kv"
    by (auto simp: batch_inv_def dict_keys_def)
  have "filter (\<lambda>b. inventory_key_of b = k) (dict_values d)
          = map snd (filter (\<lambda>kv. inventory_key_of (snd kv) = k) d)"
    by (simp add: dict_values_def filter_map comp_def)
  also have "filter (\<lambda>kv. inventory_key_of (snd kv) = k) d = filter (\<lambda>kv. fst kv = k) d"
    by (rule filter_cong) (simp_all add: keyed)
  finally show ?thesis
    by (simp add: filter_fst_distinct [OF dk] split: option.splits)
qed

text \<open>The entry of the dictionary for the pair of a stored row, after the second loop.\<close>

lemma deduped_stored_pair:
  assumes scan: "scan_inventory tool users items objects = (s, None)"
    and one: "distinct (map inventory_key_of T)"
    and stored: "r \<in> set T"
    and inc: "incoming tool users items objects (inventory_key_of r) = Some v"
  shows "map_of (deduped s T) (inventory_key_of r)
           = (if same_dates r v then None else Some (with_dates r v))"
proof -
  let ?k = "inventory_key_of r"
  let ?ex = "filter_Q inventory_key_of (query_inventory s) T"
  from inc have m: "map_of (inventory s) ?k = Some v" by (simp add: incoming_scan [OF scan])
  then have "?k \<in> set (query_inventory s)"
    by (simp add: scan_query_keys [OF scan] map_of_keys)
  then have q: "query_inventory s \<noteq> []" and rq: "r \<in> set ?ex"
    using stored by (auto simp: filter_Q_def)
  have dex: "distinct (map inventory_key_of ?ex)"
    using one by (simp add: filter_Q_def distinct_map_filter)
  from find_distinct_key [OF dex rq] dedupe_fold_distinct [OF dex, of "inventory s" ?k] m
  show ?thesis by (simp add: deduped_def)
qed


lemma inventory_entry_known:
  assumes "listed_item tool items json_item = Inr item"
    and "listing_user tool users json_user = Inr user"
    and "parse_acquired tool json_item = Inr acquired"
    and "parse_dropped tool json_item = Inr dropped"
  shows "inventory_entry tool users items json_user json_item
           = Inr (Inr \<lparr>inventory_pk = None, item_id = item_pk item, user_id = user_pk user,
                       acquisition_date = acquired, dropped_date = dropped\<rparr>)"
  using assms by (simp add: inventory_entry_def bind_def)

lemma inventory_entry_unknown:
  assumes "py_item json_item (JStr (user_item_identifier_field tool)) = Inr v"
    and "dict_item items (py_str v) = Inl KeyError"
  shows "inventory_entry tool users items json_user json_item = Inr (Inl (missing_item_warning v))"
  using assms by (simp add: inventory_entry_def listed_item_def bind_def)



subsection \<open>The example inventory\<close>

lemma example_known:
  "listed_item default_tool inventory_items known_listing
     = Inr \<lparr>item_pk = Some 5, item_external_id = ''a'', item_name = JStr ''A''\<rparr>"
  "listing_user default_tool inventory_users listing_record
     = Inr \<lparr>user_pk = Some 8, user_external_id = ''u''\<rparr>"
  "parse_acquired default_tool known_listing = Inr 10"
  "parse_dropped default_tool known_listing = Inr None"
  by (simp_all add: listed_item_def listing_user_def parse_acquired_def parse_dropped_def
      default_tool_def inventory_items_def inventory_users_def known_listing_def listing_record_def
      bind_def dict_item_def dict_item_json_def parse_date_def has_key_def)

lemma example_unknown:
  "py_item unknown_listing (JStr (user_item_identifier_field default_tool)) = Inr (JStr ''zz'')"
  "dict_item inventory_items (py_str (JStr ''zz'')) = Inl KeyError"
  by (simp_all add: default_tool_def unknown_listing_def inventory_items_def dict_item_def)

lemma example_entries:
  "inventory_entry default_tool inventory_users inventory_items listing_record known_listing
     = Inr (Inr new_inventory_row)"
  "inventory_entry default_tool inventory_users inventory_items listing_record unknown_listing
     = Inr (Inl ''Item with external_id zz does not exist!'')"
  using inventory_entry_known [OF example_known]
    inventory_entry_unknown [OF example_unknown, of inventory_users listing_record]
  by (simp_all add: new_inventory_row_def missing_item_warning_def)

lemma example_iter:
  "py_iter (get_or_empty listing_record (user_items_field default_tool))
     = Inr [known_listing, unknown_listing]"
  by (simp add: get_or_empty_def listing_record_def default_tool_def)

lemma example_scan:
  "scan_inventory default_tool inventory_users inventory_items [listing_record]
     = (\<lparr>msgs = [''Item with external_id zz does not exist!''],
         query_inventory = [(Some 5, Some 8)],
         inventory = [((Some 5, Some 8), new_inventory_row)]\<rparr>, None)"
  by (simp add: scan_inventory_def scan_user_def example_iter scan_item_def example_entries
      inventory_key_of_def new_inventory_row_def)

lemma example_incoming:
  "incoming default_tool inventory_users inventory_items [listing_record]
     (inventory_key_of stored_inventory_row) = Some new_inventory_row"
  by (simp add: incoming_def listed_entries_def entries_of_user_def example_iter example_entries
      inventory_key_of_def new_inventory_row_def stored_inventory_row_def)

lemma example_store_ok:
  "inventory_pks_ok (Inventory_table inventory_store)"
  "distinct (map inventory_key_of (Inventory_table inventory_store))"
  "stored_inventory_row \<in> set (Inventory_table inventory_store)"
  "\<not> same_dates stored_inventory_row new_inventory_row"
  by (simp_all add: inventory_pks_ok_def inventory_store_def empty_store_def stored_inventory_row_def
      new_inventory_row_def same_dates_def)

subsection \<open>Rows that are stored already\<close>

text \<open>
  C7: \<^verbatim>\<open>fill_inventory\<close> deduplicates against the stored rows.  Take a call whose scan of the
  records raises nothing, on a store whose Inventory rows have pairwise different
  primary keys and pairwise different (item, user) pairs, and a stored row \<open>r\<close> whose pair
  is listed again by the records, \<open>v\<close> being the object the scan built for that pair.  If
  \<open>r\<close> and \<open>v\<close> have the same acquisition and dropped dates, the batch handed to
  \<^verbatim>\<open>bulk_create\<close> holds no row for the pair and \<open>r\<close> is still in the table.  If the dates
  differ, the batch holds for the pair exactly the stored row with its dates overwritten
  by those of \<open>v\<close> (the primary key of \<open>r\<close> kept), and this row is in the table afterwards.
  In both cases the table holds exactly one row of the pair after the call.
\<close>

theorem fill_inventory_deduplicates:
  assumes scan: "scan_inventory tool users items objects = (s, None)"
    and ok: "inventory_pks_ok (Inventory_table st)"
    and one: "distinct (map inventory_key_of (Inventory_table st))"
    and stored: "r \<in> set (Inventory_table st)"
    and inc: "incoming tool users items objects (inventory_key_of r) = Some v"
  shows "(same_dates r v \<longrightarrow>
            filter (\<lambda>b. inventory_key_of b = inventory_key_of r) (inventory_batch s (Inventory_table st)) = []
            \<and> r \<in> set (Inventory_table (fst (fill_inventory tool users items objects st))))
       \<and> (\<not> same_dates r v \<longrightarrow>
            filter (\<lambda>b. inventory_key_of b = inventory_key_of r) (inventory_batch s (Inventory_table st))
              = [with_dates r v]
            \<and> with_dates r v \<in> set (Inventory_table (fst (fill_inventory tool users items objects st))))
       \<and> length (filter (\<lambda>x. inventory_key_of x = inventory_key_of r)
                   (Inventory_table (fst (fill_inventory tool users items objects st)))) = 1"
proof -
  let ?T = "Inventory_table st"
  let ?k = "inventory_key_of r"
  let ?d = "deduped s ?T"
  note f = fill_inventory_ok [OF scan, of st]
  note inv = f(4)
  note m = deduped_stored_pair [OF scan one stored inc]
  note rows = batch_rows_of_pair [OF inv, of ?k]
  have pk: "inventory_pk r \<noteq> None" by (rule pk_not_None [OF ok stored])
  have c: "length (filter (\<lambda>x. inventory_key_of x = ?k)
             (bulk_create inventory_pk set_inventory_pk (dict_values ?d) ?T))
           = length (filter (\<lambda>x. inventory_key_of x = ?k) ?T)"
  proof (rule table_after(4) [OF ok inv])
    fix x assume "map_of ?d ?k = Some x"
    with m have "x = with_dates r v" by (simp split: if_splits)
    with pk show "inventory_pk x \<noteq> None" by simp
  qed
  have one_row: "length (filter (\<lambda>x. inventory_key_of x = ?k) ?T) = 1"
    by (simp add: filter_distinct_key [OF one stored])
  show ?thesis
  proof (intro conjI impI)
    assume s: "same_dates r v"
    with m rows show "filter (\<lambda>b. inventory_key_of b = ?k) (inventory_batch s ?T) = []"
      by (simp add: inventory_batch_def)
    from s m have "map_of ?d ?k = None" by simp
    from table_after(1) [OF ok inv stored this] show "r \<in> set (Inventory_table (fst (fill_inventory tool users items objects st)))"
      by (simp add: f(1))
  next
    assume s: "\<not> same_dates r v"
    with m rows show "filter (\<lambda>b. inventory_key_of b = ?k) (inventory_batch s ?T) = [with_dates r v]"
      by (simp add: inventory_batch_def)
    from s m have e: "map_of ?d ?k = Some (with_dates r v)" by simp
    from pk have "inventory_pk (with_dates r v) \<noteq> None" by simp
    from table_after(2) [OF ok inv e this]
    show "with_dates r v \<in> set (Inventory_table (fst (fill_inventory tool users items objects st)))"
      by (simp add: f(1))
  next
    from c one_row show "length (filter (\<lambda>x. inventory_key_of x = ?k)
                   (Inventory_table (fst (fill_inventory tool users items objects st)))) = 1"
      by (simp add: f(1))
  qed
qed

theorem fill_inventory_deduplicates_witness:
  "filter (\<lambda>b. inventory_key_of b = (Some 5, Some 8))
     (inventory_batch \<lparr>msgs = [''Item with external_id zz does not exist!''],
                       query_inventory = [(Some 5, Some 8)],
                       inventory = [((Some 5, Some 8), new_inventory_row)]\<rparr>
        (Inventory_table inventory_store))
     = [ \<lparr>inventory_pk = Some 3, item_id = Some 5, user_id = Some 8,
          acquisition_date = 10, dropped_date = None\<rparr> ]
   \<and> \<lparr>inventory_pk = Some 3, item_id = Some 5, user_id = Some 8,
        acquisition_date = 10, dropped_date = None\<rparr>
       \<in> set (Inventory_table (fst (fill_inventory default_tool inventory_users inventory_items
                                      [listing_record] inventory_store)))
   \<and> length (filter (\<lambda>x. inventory_key_of x = (Some 5, Some 8))
               (Inventory_table (fst (fill_inventory default_tool inventory_users inventory_items
                                        [listing_record] inventory_store)))) = 1"
proof -
  have k: "inventory_key_of stored_inventory_row = (Some 5, Some 8)"
    by (simp add: inventory_key_of_def stored_inventory_row_def)
  have w: "with_dates stored_inventory_row new_inventory_row
             = \<lparr>inventory_pk = Some 3, item_id = Some 5, user_id = Some 8,
                acquisition_date = 10, dropped_date = None\<rparr>"
    by (simp add: with_dates_def stored_inventory_row_def new_inventory_row_def)
  from fill_inventory_deduplicates [OF example_scan example_store_ok(1,2,3) example_incoming]
    example_store_ok(4)
  show ?thesis by (simp only: k w simp_thms)
qed

subsection \<open>Rows for the listed items\<close>



end
